theory Spec2Isabelle
  imports Complex_Main "HOL-Library.Multiset"
begin

section \<open>The database of \<^verbatim>\<open>query.sql\<close>\<close>

text \<open>
  The conversation core of the repository is a set of PL/pgSQL procedures. The five
  tables they write are modelled: a table as the list of its rows, with \<^verbatim>\<open>INSERT\<close>
  adding at the end, and a row as a record with one field per column. A column is an
  \<open>option\<close> exactly when its declaration carries neither \<^verbatim>\<open>NOT NULL\<close> nor
  \<^verbatim>\<open>PRIMARY KEY\<close>; \<open>None\<close> is SQL's NULL. The tables \<^verbatim>\<open>ai_decisions\<close> and
  \<^verbatim>\<open>user_feedback\<close> are written by no procedure and are left out.

  Conventions of the model:
  \<^item> \<^verbatim>\<open>UUID\<close> values are natural numbers; a value drawn by \<^verbatim>\<open>gen_random_uuid()\<close> is an
    argument of the procedure that draws it, and a primary-key clash is the error
    \<open>Unique_violation\<close>.
  \<^item> \<^verbatim>\<open>NOW()\<close> is the start time of the transaction: one argument \<open>now\<close> per call.
  \<^item> A procedure returns \<open>Inl e\<close> when a statement raises \<open>e\<close>; PostgreSQL then undoes
    everything the call did, so the database after a failed call is the database before it.
  \<^item> The string parameters are unbounded \<^verbatim>\<open>VARCHAR\<close> and the cost parameter an
    unbounded \<^verbatim>\<open>DECIMAL\<close>, while the columns are bounded. Storing a value coerces it to
    the column type: \<open>varchar\<close> and \<open>decimal_10_6\<close> below, which raise where PostgreSQL
    does. The coercions of a statement run in column order and before its constraints
    are checked. The one string not coerced is the agent id of \<^verbatim>\<open>agent_takeover\<close>: the
    ids of the rows of \<^verbatim>\<open>agents\<close> are \<^verbatim>\<open>VARCHAR(100)\<close> like the column it is stored in,
    and the model of that procedure covers agent ids of at most 100 characters.
  \<^item> A string is the list of its characters. The \<^verbatim>\<open>numeric\<close> values NaN and Infinity
    are not values of the model.
  \<^item> \<^verbatim>\<open>INT\<close> is \<open>int\<close> with the 32-bit range checked where the code adds: PostgreSQL
    raises on overflow, it does not wrap.
\<close>

type_synonym uuid = nat
type_synonym timestamp = int

datatype jsonb = JNull | JString string | JObject "(string \<times> jsonb) list"

datatype sql_error =
    Not_null_violation
  | Foreign_key_violation
  | Unique_violation
  | Numeric_value_out_of_range
  | String_data_right_truncation
  | Ambiguous_column
  | Invalid_row_count_in_limit

record users_row =
  u_id :: uuid
  u_channel :: string
  u_channel_user_id :: string
  u_name :: "string option"
  u_metadata :: "jsonb option"
  u_created_at :: "timestamp option"
  u_last_seen_at :: "timestamp option"

record sessions_row =
  s_id :: uuid
  s_user_id :: "uuid option"
  s_channel :: string
  s_selected_category :: "string option"
  s_category_selected_at :: "timestamp option"
  s_status :: "string option"
  s_assigned_agent_id :: "string option"
  s_escalated_at :: "timestamp option"
  s_resolved_at :: "timestamp option"
  s_created_at :: "timestamp option"
  s_updated_at :: "timestamp option"

record events_row =
  e_id :: uuid
  e_session_id :: "uuid option"
  e_type :: string
  e_sender :: string
  e_content :: "string option"
  e_metadata :: "jsonb option"
  e_created_at :: "timestamp option"

record costs_row =
  c_id :: uuid
  c_session_id :: "uuid option"
  c_event_id :: "uuid option"
  c_service :: string
  c_model :: "string option"
  c_input_tokens :: "int option"
  c_output_tokens :: "int option"
  c_total_tokens :: "int option"
  c_cost_usd :: rat
  c_created_at :: "timestamp option"

record agents_row =
  a_id :: string
  a_name :: string
  a_email :: "string option"
  a_status :: "string option"
  a_current_sessions :: "int option"
  a_total_takeovers :: "int option"
  a_created_at :: "timestamp option"
  a_last_active_at :: "timestamp option"

record db =
  users :: "users_row list"
  sessions :: "sessions_row list"
  events :: "events_row list"
  conversation_costs :: "costs_row list"
  agents :: "agents_row list"

subsection \<open>Statement helpers\<close>

text \<open>\<^verbatim>\<open>UPDATE t SET ... WHERE P\<close>: every row that satisfies \<open>P\<close> is rewritten, the others
  are kept; \<^verbatim>\<open>FOUND\<close> after it says whether a row was affected.\<close>

definition sql_update :: "('r \<Rightarrow> bool) \<Rightarrow> ('r \<Rightarrow> 'r) \<Rightarrow> 'r list \<Rightarrow> 'r list" where
  "sql_update P f rows = map (\<lambda>r. if P r then f r else r) rows"

definition sql_found :: "('r \<Rightarrow> bool) \<Rightarrow> 'r list \<Rightarrow> bool" where
  "sql_found P rows = list_ex P rows"

text \<open>A foreign key holds when the reference is NULL or names a key of the parent table.\<close>

definition fk_ok :: "'k option \<Rightarrow> 'k list \<Rightarrow> bool" where
  "fk_ok ref keys = (case ref of None \<Rightarrow> True | Some k \<Rightarrow> k \<in> set keys)"

text \<open>
  Storing a string in a \<^verbatim>\<open>VARCHAR(n)\<close> column: a string of at most \<open>n\<close> characters is
  stored as it is; a longer one whose excess characters are all spaces is cut to \<open>n\<close>
  characters; any other raises \<^verbatim>\<open>string_data_right_truncation\<close> (22001). NULL stays
  NULL.
\<close>

definition varchar :: "nat \<Rightarrow> string \<Rightarrow> sql_error + string" where
  "varchar n s =
     (if length s \<le> n then Inr s
      else if list_all (\<lambda>c. c = CHR '' '') (drop n s) then Inr (take n s)
      else Inl String_data_right_truncation)"

definition varchar_null :: "nat \<Rightarrow> string option \<Rightarrow> sql_error + string option" where
  "varchar_null n v =
     (case v of
        None \<Rightarrow> Inr None
      | Some s \<Rightarrow> (case varchar n s of Inl e \<Rightarrow> Inl e | Inr t \<Rightarrow> Inr (Some t)))"

text \<open>A value that a \<^verbatim>\<open>VARCHAR(n)\<close> column stores unchanged.\<close>

definition fits :: "nat \<Rightarrow> string option \<Rightarrow> bool" where
  "fits n v = (case v of None \<Rightarrow> True | Some s \<Rightarrow> length s \<le> n)"

text \<open>
  Storing a number in a \<^verbatim>\<open>DECIMAL(10,6)\<close> column: the value is rounded to six decimal
  places, ties away from zero, and the result must be below \<open>10000\<close> in absolute value,
  else \<^verbatim>\<open>numeric_value_out_of_range\<close> (22003) is raised. \<open>micros q\<close> is the rounded value
  counted in millionths.
\<close>

definition round_half_away :: "rat \<Rightarrow> int" where
  "round_half_away q = (if 0 \<le> q then \<lfloor>q + 1 / 2\<rfloor> else - \<lfloor>- q + 1 / 2\<rfloor>)"

definition micros :: "rat \<Rightarrow> int" where
  "micros q = round_half_away (q * 1000000)"

definition decimal_10_6 :: "rat \<Rightarrow> sql_error + rat" where
  "decimal_10_6 q =
     (if \<bar>micros q\<bar> < 10000000000 then Inr (of_int (micros q) / 1000000)
      else Inl Numeric_value_out_of_range)"

definition decimal_10_6_null :: "rat option \<Rightarrow> sql_error + rat option" where
  "decimal_10_6_null v =
     (case v of
        None \<Rightarrow> Inr None
      | Some q \<Rightarrow> (case decimal_10_6 q of Inl e \<Rightarrow> Inl e | Inr r \<Rightarrow> Inr (Some r)))"

definition int4 :: "int \<Rightarrow> bool" where
  "int4 i = (- 2147483648 \<le> i \<and> i \<le> 2147483647)"

text \<open>\<^verbatim>\<open>a + b\<close> on \<^verbatim>\<open>INT\<close>: NULL when an operand is NULL, an error out of range.\<close>

definition int4_add :: "int option \<Rightarrow> int option \<Rightarrow> sql_error + int option" where
  "int4_add a b =
     (case a of
        None \<Rightarrow> Inr None
      | Some x \<Rightarrow>
          (case b of
             None \<Rightarrow> Inr None
           | Some y \<Rightarrow> if int4 (x + y) then Inr (Some (x + y)) else Inl Numeric_value_out_of_range))"

text \<open>The value of \<^verbatim>\<open>c + 1\<close> for a counter column and the condition under which the
  addition stays in range.\<close>

definition incremented :: "int option \<Rightarrow> int option" where
  "incremented c = map_option (\<lambda>x. x + 1) c"

definition can_increment :: "int option \<Rightarrow> bool" where
  "can_increment c = (case c of None \<Rightarrow> True | Some x \<Rightarrow> int4 (x + 1))"

text \<open>The order of \<^verbatim>\<open>ORDER BY created_at\<close>: ascending order puts NULL after every
  timestamp, descending order before.\<close>

fun created_le :: "timestamp option \<Rightarrow> timestamp option \<Rightarrow> bool" where
  "created_le _ None = True"
| "created_le None (Some _) = False"
| "created_le (Some a) (Some b) = (a \<le> b)"

text \<open>\<^verbatim>\<open>INSERT INTO events\<close> with every column value given (defaults already filled in by
  the caller): the NOT NULL columns, the primary key, then the foreign key to
  \<^verbatim>\<open>sessions\<close>.\<close>

definition insert_into_events ::
  "db \<Rightarrow> uuid \<Rightarrow> uuid option \<Rightarrow> string option \<Rightarrow> string option \<Rightarrow> string option \<Rightarrow>
   jsonb option \<Rightarrow> timestamp \<Rightarrow> sql_error + db" where
  "insert_into_events d new_id sid ty sender content meta now =
     (case ty of
        None \<Rightarrow> Inl Not_null_violation
      | Some t \<Rightarrow>
          (case sender of
             None \<Rightarrow> Inl Not_null_violation
           | Some s \<Rightarrow>
               if new_id \<in> set (map e_id (events d)) then Inl Unique_violation
               else if fk_ok sid (map s_id (sessions d)) then
                 Inr (d\<lparr>events := events d @
                   [\<lparr>e_id = new_id, e_session_id = sid, e_type = t, e_sender = s,
                     e_content = content, e_metadata = meta, e_created_at = Some now\<rparr>]\<rparr>)
               else Inl Foreign_key_violation))"

subsection \<open>FUNCTION 1: \<^verbatim>\<open>create_or_get_session\<close>\<close>

text \<open>\<^verbatim>\<open>COALESCE(a, b)\<close>: the first argument unless it is NULL.\<close>

definition coalesce :: "'a option \<Rightarrow> 'a option \<Rightarrow> 'a option" where
  "coalesce a b = (case a of None \<Rightarrow> b | Some x \<Rightarrow> Some x)"

text \<open>The first statement, \<^verbatim>\<open>INSERT INTO users ... ON CONFLICT (channel, channel_user_id)
  DO UPDATE SET last_seen_at = NOW(), name = COALESCE(EXCLUDED.name, users.name)
  RETURNING id INTO v_user_id\<close>. The three strings are coerced to \<^verbatim>\<open>VARCHAR(20)\<close>,
  \<^verbatim>\<open>VARCHAR(255)\<close> and \<^verbatim>\<open>VARCHAR(255)\<close> when the row proposed for insertion is formed,
  before the conflict is looked for. \<^verbatim>\<open>EXCLUDED.name\<close> is the name of that row, the
  coerced \<^verbatim>\<open>p_user_name\<close>. The unique constraint leaves at most one row with the key.\<close>

definition upsert_user ::
  "db \<Rightarrow> timestamp \<Rightarrow> uuid \<Rightarrow> string option \<Rightarrow> string option \<Rightarrow> string option \<Rightarrow>
   sql_error + (uuid \<times> db)" where
  "upsert_user d now new_user_id p_channel p_channel_user_id p_user_name =
     (case varchar_null 20 p_channel of
        Inl e \<Rightarrow> Inl e
      | Inr channel \<Rightarrow>
     (case varchar_null 255 p_channel_user_id of
        Inl e \<Rightarrow> Inl e
      | Inr channel_user_id \<Rightarrow>
     (case varchar_null 255 p_user_name of
        Inl e \<Rightarrow> Inl e
      | Inr name \<Rightarrow>
     (case channel of
        None \<Rightarrow> Inl Not_null_violation
      | Some ch \<Rightarrow>
          (case channel_user_id of
             None \<Rightarrow> Inl Not_null_violation
           | Some cu \<Rightarrow>
               (case find (\<lambda>u. u_channel u = ch \<and> u_channel_user_id u = cu) (users d) of
                  Some u \<Rightarrow>
                    Inr (u_id u,
                         d\<lparr>users := sql_update (\<lambda>r. u_channel r = ch \<and> u_channel_user_id r = cu)
                              (\<lambda>r. r\<lparr>u_last_seen_at := Some now,
                                      u_name := coalesce name (u_name r)\<rparr>) (users d)\<rparr>)
                | None \<Rightarrow>
                    if new_user_id \<in> set (map u_id (users d)) then Inl Unique_violation
                    else
                      Inr (new_user_id,
                           d\<lparr>users := users d @
                              [\<lparr>u_id = new_user_id, u_channel = ch, u_channel_user_id = cu,
                                u_name = name, u_metadata = Some (JObject []),
                                u_created_at = Some now, u_last_seen_at = Some now\<rparr>]\<rparr>)))))))"

text \<open>\<^verbatim>\<open>status IN ('active', 'escalated')\<close>.\<close>

definition open_status :: "string option \<Rightarrow> bool" where
  "open_status st = (st = Some ''active'' \<or> st = Some ''escalated'')"

text \<open>\<^verbatim>\<open>ORDER BY created_at DESC LIMIT 1\<close>: NULL sorts before every timestamp in
  descending order. Among rows of equal \<^verbatim>\<open>created_at\<close> SQL leaves the choice open; the
  model takes the first in table order, and no theorem below relies on that choice.\<close>

fun latest_session :: "sessions_row list \<Rightarrow> sessions_row option" where
  "latest_session [] = None"
| "latest_session (s # rest) =
     (case latest_session rest of
        None \<Rightarrow> Some s
      | Some t \<Rightarrow> if created_le (s_created_at t) (s_created_at s) then Some s else Some t)"

text \<open>
  The second statement is
  \<^verbatim>\<open>SELECT id INTO v_session_id FROM sessions WHERE user_id = v_user_id AND status IN
  ('active', 'escalated') ORDER BY created_at DESC LIMIT 1\<close>.
  The procedure is declared \<^verbatim>\<open>RETURNS TABLE(session_id, user_id, selected_category,
  status)\<close>, which makes these four names output variables of the body. The unqualified
  \<^verbatim>\<open>user_id\<close> and \<^verbatim>\<open>status\<close> of the \<^verbatim>\<open>WHERE\<close> clause therefore name a variable and a
  column at once, and PL/pgSQL resolves such a name by its setting
  \<^verbatim>\<open>plpgsql.variable_conflict\<close>, which the source does not fix (the body has no
  \<^verbatim>\<open>#variable_conflict\<close> line): it is a parameter of the model.
  \<^item> \<open>Conflict_error\<close>, PostgreSQL's default: the statement raises \<^verbatim>\<open>ambiguous_column\<close>.
  \<^item> \<open>Use_variable\<close>: both names are the output variables, NULL at that point, so the
    condition is NULL for every row and no row is selected.
  \<^item> \<open>Use_column\<close>: both names are the columns of \<^verbatim>\<open>sessions\<close>.
  The procedure's last query qualifies the same columns (\<^verbatim>\<open>s.user_id\<close>, \<^verbatim>\<open>s.status\<close>).
  No other column reference of the modelled procedures is also the name of a variable
  (the \<^verbatim>\<open>ORDER BY created_at\<close> of \<^verbatim>\<open>get_session_history\<close> names a column of its own
  result list, which SQL resolves first).
\<close>

datatype variable_conflict = Conflict_error | Use_variable | Use_column

definition select_open_session ::
  "variable_conflict \<Rightarrow> db \<Rightarrow> uuid \<Rightarrow> sql_error + uuid option" where
  "select_open_session vc d v_user_id =
     (case vc of
        Conflict_error \<Rightarrow> Inl Ambiguous_column
      | Use_variable \<Rightarrow> Inr None
      | Use_column \<Rightarrow>
          Inr (map_option s_id
                 (latest_session
                    (filter (\<lambda>s. s_user_id s = Some v_user_id \<and> open_status (s_status s))
                       (sessions d)))))"

text \<open>\<^verbatim>\<open>INSERT INTO sessions (user_id, channel, status) VALUES (v_user_id, p_channel,
  'active') RETURNING id\<close>; the channel is coerced to \<^verbatim>\<open>VARCHAR(20)\<close> and the other
  columns take their defaults.\<close>

definition insert_session ::
  "db \<Rightarrow> timestamp \<Rightarrow> uuid \<Rightarrow> uuid \<Rightarrow> string option \<Rightarrow> sql_error + (uuid \<times> db)" where
  "insert_session d now new_session_id v_user_id p_channel =
     (case varchar_null 20 p_channel of
        Inl e \<Rightarrow> Inl e
      | Inr None \<Rightarrow> Inl Not_null_violation
      | Inr (Some ch) \<Rightarrow>
          if new_session_id \<in> set (map s_id (sessions d)) then Inl Unique_violation
          else if fk_ok (Some v_user_id) (map u_id (users d)) then
            Inr (new_session_id,
                 d\<lparr>sessions := sessions d @
                    [\<lparr>s_id = new_session_id, s_user_id = Some v_user_id, s_channel = ch,
                      s_selected_category = None, s_category_selected_at = None,
                      s_status = Some ''active'', s_assigned_agent_id = None,
                      s_escalated_at = None, s_resolved_at = None,
                      s_created_at = Some now, s_updated_at = Some now\<rparr>]\<rparr>)
          else Inl Foreign_key_violation)"

text \<open>A row of the result table: \<^verbatim>\<open>session_id, user_id, selected_category, status\<close>.\<close>

definition session_details ::
  "sessions_row \<Rightarrow> uuid \<times> uuid option \<times> string option \<times> string option" where
  "session_details s = (s_id s, s_user_id s, s_selected_category s, s_status s)"

definition create_or_get_session ::
  "variable_conflict \<Rightarrow> db \<Rightarrow> timestamp \<Rightarrow> uuid \<Rightarrow> uuid \<Rightarrow> string option \<Rightarrow> string option \<Rightarrow>
   string option \<Rightarrow>
   sql_error + ((uuid \<times> uuid option \<times> string option \<times> string option) list \<times> db)" where
  "create_or_get_session vc d now new_user_id new_session_id p_channel p_channel_user_id
       p_user_name =
     (case upsert_user d now new_user_id p_channel p_channel_user_id p_user_name of
        Inl e \<Rightarrow> Inl e
      | Inr (v_user_id, d1) \<Rightarrow>
          (case select_open_session vc d1 v_user_id of
             Inl e \<Rightarrow> Inl e
           | Inr selected \<Rightarrow>
               (case (case selected of
                        Some sid \<Rightarrow> Inr (sid, d1)
                      | None \<Rightarrow> insert_session d1 now new_session_id v_user_id p_channel) of
                  Inl e \<Rightarrow> Inl e
                | Inr (v_session_id, d2) \<Rightarrow>
                    (let d3 = d2\<lparr>sessions := sql_update (\<lambda>s. s_id s = v_session_id)
                                 (\<lambda>s. s\<lparr>s_updated_at := Some now\<rparr>) (sessions d2)\<rparr>
                     in Inr (map session_details
                               (filter (\<lambda>s. s_id s = v_session_id) (sessions d3)), d3)))))"

text \<open>The rows the lookup chooses from, read off the tables: the active and escalated
  sessions of the user with a given channel key.\<close>

definition open_sessions :: "db \<Rightarrow> string \<Rightarrow> string \<Rightarrow> sessions_row list" where
  "open_sessions d ch cu =
     (case find (\<lambda>u. u_channel u = ch \<and> u_channel_user_id u = cu) (users d) of
        None \<Rightarrow> []
      | Some u \<Rightarrow>
          filter (\<lambda>s. s_user_id s = Some (u_id u) \<and> open_status (s_status s)) (sessions d))"

subsection \<open>FUNCTION 2: \<^verbatim>\<open>log_event\<close>\<close>

text \<open>The \<^verbatim>\<open>INSERT\<close>, with \<^verbatim>\<open>p_type\<close> coerced to \<^verbatim>\<open>VARCHAR(50)\<close> and \<^verbatim>\<open>p_sender\<close> to
  \<^verbatim>\<open>VARCHAR(20)\<close>, then the \<^verbatim>\<open>UPDATE\<close> of the session's \<^verbatim>\<open>updated_at\<close>. The foreign key
  of \<^verbatim>\<open>session_id\<close> does not apply to NULL.\<close>

definition log_event ::
  "db \<Rightarrow> timestamp \<Rightarrow> uuid \<Rightarrow> uuid option \<Rightarrow> string option \<Rightarrow> string option \<Rightarrow>
   string option \<Rightarrow> jsonb option \<Rightarrow> sql_error + (uuid \<times> db)" where
  "log_event d now new_id p_session_id p_type p_sender p_content p_metadata =
     (case varchar_null 50 p_type of
        Inl e \<Rightarrow> Inl e
      | Inr ty \<Rightarrow>
     (case varchar_null 20 p_sender of
        Inl e \<Rightarrow> Inl e
      | Inr sender \<Rightarrow>
     (case insert_into_events d new_id p_session_id ty sender p_content p_metadata now of
        Inl e \<Rightarrow> Inl e
      | Inr d1 \<Rightarrow>
          Inr (new_id,
               d1\<lparr>sessions := sql_update (\<lambda>s. Some (s_id s) = p_session_id)
                                 (\<lambda>s. s\<lparr>s_updated_at := Some now\<rparr>) (sessions d1)\<rparr>))))"

subsection \<open>FUNCTION 3: \<^verbatim>\<open>set_session_category\<close>\<close>

text \<open>One \<^verbatim>\<open>UPDATE ... WHERE id = p_session_id\<close> and \<^verbatim>\<open>RETURN FOUND\<close>. The statement has
  no condition on \<^verbatim>\<open>status\<close>. The category is coerced to \<^verbatim>\<open>VARCHAR(50)\<close>; the model
  raises on a category that does not fit whether or not a row matches, as PostgreSQL does
  when it plans the statement with the argument as a constant, and no theorem below is
  about a call that has both an unfit category and no matching row.\<close>

definition set_session_category ::
  "db \<Rightarrow> timestamp \<Rightarrow> uuid option \<Rightarrow> string option \<Rightarrow> sql_error + (bool \<times> db)" where
  "set_session_category d now p_session_id p_category =
     (case varchar_null 50 p_category of
        Inl e \<Rightarrow> Inl e
      | Inr category \<Rightarrow>
          Inr (sql_found (\<lambda>s. Some (s_id s) = p_session_id) (sessions d),
               d\<lparr>sessions := sql_update (\<lambda>s. Some (s_id s) = p_session_id)
                     (\<lambda>s. s\<lparr>s_selected_category := category,
                             s_category_selected_at := Some now,
                             s_updated_at := Some now\<rparr>) (sessions d)\<rparr>))"

subsection \<open>FUNCTION 4: \<^verbatim>\<open>escalate_session\<close>\<close>

text \<open>The \<^verbatim>\<open>UPDATE\<close>, then the \<^verbatim>\<open>INSERT\<close> of the escalation event (its
  \<^verbatim>\<open>metadata\<close> column is left to its default, the empty object), then
  \<^verbatim>\<open>RETURN FOUND\<close>: the last statement that set \<^verbatim>\<open>FOUND\<close> is the \<^verbatim>\<open>INSERT\<close>, which
  inserted one row, so a call that returns at all returns true.\<close>

definition escalate_session ::
  "db \<Rightarrow> timestamp \<Rightarrow> uuid \<Rightarrow> uuid option \<Rightarrow> string option \<Rightarrow> sql_error + (bool \<times> db)" where
  "escalate_session d now new_event_id p_session_id p_reason =
     (let d1 = d\<lparr>sessions := sql_update (\<lambda>s. Some (s_id s) = p_session_id)
                  (\<lambda>s. s\<lparr>s_status := Some ''escalated'',
                          s_escalated_at := Some now,
                          s_updated_at := Some now\<rparr>) (sessions d)\<rparr>
      in case insert_into_events d1 new_event_id p_session_id (Some ''escalation'')
                (Some ''system'') p_reason (Some (JObject [])) now of
           Inl e \<Rightarrow> Inl e
         | Inr d2 \<Rightarrow> Inr (True, d2))"

subsection \<open>FUNCTION 5: \<^verbatim>\<open>agent_takeover\<close>\<close>

text \<open>\<^verbatim>\<open>UPDATE agents SET current_sessions = current_sessions + 1, total_takeovers =
  total_takeovers + 1, status = 'busy', last_active_at = NOW() WHERE id = p_agent_id\<close>.\<close>

fun update_agents :: "timestamp \<Rightarrow> string option \<Rightarrow> agents_row list \<Rightarrow> sql_error + agents_row list" where
  "update_agents now p_agent_id [] = Inr []"
| "update_agents now p_agent_id (a # rest) =
     (if Some (a_id a) = p_agent_id then
        (case int4_add (a_current_sessions a) (Some 1) of
           Inl e \<Rightarrow> Inl e
         | Inr cs \<Rightarrow>
             (case int4_add (a_total_takeovers a) (Some 1) of
                Inl e \<Rightarrow> Inl e
              | Inr tt \<Rightarrow>
                  (case update_agents now p_agent_id rest of
                     Inl e \<Rightarrow> Inl e
                   | Inr rest' \<Rightarrow>
                       Inr (a\<lparr>a_current_sessions := cs, a_total_takeovers := tt,
                              a_status := Some ''busy'', a_last_active_at := Some now\<rparr> # rest'))))
      else
        (case update_agents now p_agent_id rest of
           Inl e \<Rightarrow> Inl e
         | Inr rest' \<Rightarrow> Inr (a # rest')))"

text \<open>\<^verbatim>\<open>jsonb_build_object('agent_id', p_agent_id)\<close>.\<close>

definition takeover_metadata :: "string option \<Rightarrow> jsonb" where
  "takeover_metadata p_agent_id =
     JObject [(''agent_id'', case p_agent_id of None \<Rightarrow> JNull | Some a \<Rightarrow> JString a)]"

text \<open>The session \<^verbatim>\<open>UPDATE\<close> has the single condition \<^verbatim>\<open>id = p_session_id\<close>; the
  takeover event is inserted; the agent row is updated; \<^verbatim>\<open>RETURN FOUND\<close> then reports
  the agent \<^verbatim>\<open>UPDATE\<close>, the last statement run.\<close>

definition agent_takeover ::
  "db \<Rightarrow> timestamp \<Rightarrow> uuid \<Rightarrow> uuid option \<Rightarrow> string option \<Rightarrow> sql_error + (bool \<times> db)" where
  "agent_takeover d now new_event_id p_session_id p_agent_id =
     (let d1 = d\<lparr>sessions := sql_update (\<lambda>s. Some (s_id s) = p_session_id)
                  (\<lambda>s. s\<lparr>s_assigned_agent_id := p_agent_id,
                          s_updated_at := Some now\<rparr>) (sessions d)\<rparr>
      in case insert_into_events d1 new_event_id p_session_id (Some ''takeover'')
                (Some ''system'') (Some ''Agent took over conversation'')
                (Some (takeover_metadata p_agent_id)) now of
           Inl e \<Rightarrow> Inl e
         | Inr d2 \<Rightarrow>
             (case update_agents now p_agent_id (agents d2) of
                Inl e \<Rightarrow> Inl e
              | Inr ags \<Rightarrow>
                  Inr (sql_found (\<lambda>a. Some (a_id a) = p_agent_id) (agents d2),
                       d2\<lparr>agents := ags\<rparr>)))"

subsection \<open>FUNCTION 6: \<^verbatim>\<open>get_session_history\<close>\<close>

text \<open>
  \<^verbatim>\<open>ORDER BY created_at ASC\<close> fixes the order of the rows up to the order of rows with
  equal \<^verbatim>\<open>created_at\<close>, which SQL leaves to the executor. The executor's sort is
  therefore a parameter \<open>order_by\<close> of the model, and \<open>sorts_by_created_at\<close> is what
  SQL promises of it: the same rows, in ascending order of \<^verbatim>\<open>created_at\<close>.
\<close>

definition sorts_by_created_at :: "(events_row list \<Rightarrow> events_row list) \<Rightarrow> bool" where
  "sorts_by_created_at order_by =
     (\<forall>rows. mset (order_by rows) = mset rows
          \<and> sorted_wrt (\<lambda>a b. created_le (e_created_at a) (e_created_at b)) (order_by rows))"

text \<open>Two such sorts, to run the model with: one keeps rows of equal \<^verbatim>\<open>created_at\<close> in
  table order, the other returns them in the opposite order.\<close>

fun insert_event_sorted :: "events_row \<Rightarrow> events_row list \<Rightarrow> events_row list" where
  "insert_event_sorted e [] = [e]"
| "insert_event_sorted e (x # xs) =
     (if created_le (e_created_at e) (e_created_at x) then e # x # xs
      else x # insert_event_sorted e xs)"

definition order_by_created_at :: "events_row list \<Rightarrow> events_row list" where
  "order_by_created_at rows = foldr insert_event_sorted rows []"

fun insert_event_after_ties :: "events_row \<Rightarrow> events_row list \<Rightarrow> events_row list" where
  "insert_event_after_ties e [] = [e]"
| "insert_event_after_ties e (x # xs) =
     (if created_le (e_created_at x) (e_created_at e) then x # insert_event_after_ties e xs
      else e # x # xs)"

definition order_by_created_at_ties_reversed :: "events_row list \<Rightarrow> events_row list" where
  "order_by_created_at_ties_reversed rows = foldr insert_event_after_ties rows []"

record history_row =
  h_event_id :: uuid
  h_type :: string
  h_sender :: string
  h_content :: "string option"
  h_metadata :: "jsonb option"
  h_created_at :: "timestamp option"

definition history_of :: "events_row \<Rightarrow> history_row" where
  "history_of e =
     \<lparr>h_event_id = e_id e, h_type = e_type e, h_sender = e_sender e,
      h_content = e_content e, h_metadata = e_metadata e, h_created_at = e_created_at e\<rparr>"

text \<open>\<^verbatim>\<open>WHERE session_id = p_session_id\<close> selects no row when either side is NULL.\<close>

definition session_events :: "db \<Rightarrow> uuid option \<Rightarrow> events_row list" where
  "session_events d p_session_id =
     filter (\<lambda>e. p_session_id \<noteq> None \<and> e_session_id e = p_session_id) (events d)"

text \<open>The procedure has two parameters, the session and \<^verbatim>\<open>p_limit\<close>; \<^verbatim>\<open>LIMIT NULL\<close> is
  no limit and a negative limit raises.\<close>

definition get_session_history ::
  "(events_row list \<Rightarrow> events_row list) \<Rightarrow> db \<Rightarrow> uuid option \<Rightarrow> int option \<Rightarrow>
   sql_error + history_row list" where
  "get_session_history order_by d p_session_id p_limit =
     (let rows = order_by (session_events d p_session_id)
      in case p_limit of
           None \<Rightarrow> Inr (map history_of rows)
         | Some n \<Rightarrow>
             if n < 0 then Inl Invalid_row_count_in_limit
             else Inr (map history_of (take (nat n) rows)))"

subsection \<open>FUNCTION 7: \<^verbatim>\<open>log_api_cost\<close>\<close>

text \<open>One \<^verbatim>\<open>INSERT\<close>. The only computation is \<^verbatim>\<open>p_input_tokens + p_output_tokens\<close>;
  the procedure compares none of its arguments with zero. In column order, the service is
  coerced to \<^verbatim>\<open>VARCHAR(20)\<close>, the model to \<^verbatim>\<open>VARCHAR(50)\<close>, the sum is formed, and the
  cost is coerced to \<^verbatim>\<open>DECIMAL(10,6)\<close>; then the constraints are checked.\<close>

definition log_api_cost ::
  "db \<Rightarrow> timestamp \<Rightarrow> uuid \<Rightarrow> uuid option \<Rightarrow> uuid option \<Rightarrow> string option \<Rightarrow> string option \<Rightarrow>
   int option \<Rightarrow> int option \<Rightarrow> rat option \<Rightarrow> sql_error + (uuid \<times> db)" where
  "log_api_cost d now new_id p_session_id p_event_id p_service p_model
       p_input_tokens p_output_tokens p_cost_usd =
     (case varchar_null 20 p_service of
        Inl e \<Rightarrow> Inl e
      | Inr service_value \<Rightarrow>
     (case varchar_null 50 p_model of
        Inl e \<Rightarrow> Inl e
      | Inr model_value \<Rightarrow>
     (case int4_add p_input_tokens p_output_tokens of
        Inl e \<Rightarrow> Inl e
      | Inr total_tokens \<Rightarrow>
     (case decimal_10_6_null p_cost_usd of
        Inl e \<Rightarrow> Inl e
      | Inr cost_value \<Rightarrow>
          (case service_value of
             None \<Rightarrow> Inl Not_null_violation
           | Some service \<Rightarrow>
               (case cost_value of
                  None \<Rightarrow> Inl Not_null_violation
                | Some cost \<Rightarrow>
                    if new_id \<in> set (map c_id (conversation_costs d)) then Inl Unique_violation
                    else if fk_ok p_session_id (map s_id (sessions d))
                            \<and> fk_ok p_event_id (map e_id (events d)) then
                      Inr (new_id,
                           d\<lparr>conversation_costs := conversation_costs d @
                              [\<lparr>c_id = new_id, c_session_id = p_session_id,
                                c_event_id = p_event_id, c_service = service,
                                c_model = model_value, c_input_tokens = p_input_tokens,
                                c_output_tokens = p_output_tokens, c_total_tokens = total_tokens,
                                c_cost_usd = cost, c_created_at = Some now\<rparr>]\<rparr>)
                    else Inl Foreign_key_violation))))))"

section \<open>The agent console (\<^verbatim>\<open>App.jsx\<close>)\<close>

text \<open>
  The agent's client is the second \<^verbatim>\<open>App\<close> component of
  \<^verbatim>\<open>src/frontend/owner-dashboard/src/App.jsx\<close>, the one that opens the WebSocket. It keeps
  its React state in hooks; the model is a record of the state the two handlers below
  read and write. An entry of the pending list is the payload
  object of an \<^verbatim>\<open>escalation\<close> message: its \<^verbatim>\<open>session_id\<close> and the rest of the summary.
  \<^verbatim>\<open>console.log\<close> and the notification sound leave the state alone and are not modelled;
  neither is the timer that clears a notification after five seconds.
\<close>

record escalation =
  esc_session_id :: string
  esc_details :: string

record client =
  agent_token :: "string option"
  agent_info :: "(string \<times> string) option"
  escalations :: "escalation list"
  selected_session :: "string option"
  conversation_history :: "history_row list"
  notification :: "(string \<times> string) option"

text \<open>A parsed message is \<^verbatim>\<open>{type, payload}\<close>. The payload is absent, an array of
  escalations, one escalation, or an object with an optional \<^verbatim>\<open>message\<close> text.\<close>

datatype payload =
    No_payload
  | Escalation_array "escalation list"
  | Escalation_object escalation
  | Text_object "string option"

record ws_message =
  msg_type :: string
  msg_payload :: payload

definition showNotification :: "string \<Rightarrow> string \<Rightarrow> client \<Rightarrow> client" where
  "showNotification message kind st = st\<lparr>notification := Some (message, kind)\<rparr>"

text \<open>The updater of the \<^verbatim>\<open>escalation\<close> case:
  \<^verbatim>\<open>prev.some(e => e.session_id === newEscalation.session_id) ? prev : [...prev, newEscalation]\<close>.\<close>

definition add_escalation :: "escalation \<Rightarrow> escalation list \<Rightarrow> escalation list" where
  "add_escalation newEscalation prev =
     (if list_ex (\<lambda>e. esc_session_id e = esc_session_id newEscalation) prev then prev
      else prev @ [newEscalation])"

text \<open>
  \<^verbatim>\<open>websocket.onmessage\<close>, after \<^verbatim>\<open>JSON.parse\<close>: the \<^verbatim>\<open>switch (message.type)\<close> with its
  six \<^verbatim>\<open>case\<close> labels and the \<^verbatim>\<open>default\<close> branch, which logs
  \<^verbatim>\<open>Unknown message type\<close> and changes nothing. Reading \<^verbatim>\<open>payload.message\<close> of an absent
  payload throws, and the handler's \<^verbatim>\<open>catch\<close> logs the error: the state stays.
  The result is \<open>None\<close> where the JavaScript would store a value that is no list of
  escalations (an \<^verbatim>\<open>initial_escalations\<close> or \<^verbatim>\<open>escalation\<close> message whose payload has
  another shape): such states are outside the model.
\<close>

definition onmessage :: "client \<Rightarrow> ws_message \<Rightarrow> client option" where
  "onmessage st message =
     (if msg_type message = ''connected'' then Some st
      else if msg_type message = ''initial_escalations'' then
        (case msg_payload message of
           No_payload \<Rightarrow> Some (st\<lparr>escalations := []\<rparr>)
         | Escalation_array es \<Rightarrow> Some (st\<lparr>escalations := es\<rparr>)
         | _ \<Rightarrow> None)
      else if msg_type message = ''escalation'' then
        (case msg_payload message of
           Escalation_object newEscalation \<Rightarrow>
             Some (showNotification ''New escalation received!'' ''warning''
                     (st\<lparr>escalations := add_escalation newEscalation (escalations st)\<rparr>))
         | _ \<Rightarrow> None)
      else if msg_type message = ''takeover_success'' then
        Some (showNotification ''Takeover successful'' ''success'' st)
      else if msg_type message = ''pong'' then Some st
      else if msg_type message = ''error'' then
        (case msg_payload message of
           No_payload \<Rightarrow> Some st
         | Text_object (Some m) \<Rightarrow>
             Some (showNotification (if m = [] then ''Error occurred'' else m) ''error'' st)
         | _ \<Rightarrow> Some (showNotification ''Error occurred'' ''error'' st))
      else Some st)"

text \<open>\<^verbatim>\<open>loadConversationHistory\<close>: the response of the history request is \<open>None\<close> when the
  request fails, and the function then shows its own error notification.\<close>

definition loadConversationHistory :: "history_row list option \<Rightarrow> client \<Rightarrow> client" where
  "loadConversationHistory response st =
     (case response of
        Some evs \<Rightarrow> st\<lparr>conversation_history := evs\<rparr>
      | None \<Rightarrow> showNotification ''Failed to load conversation history'' ''error'' st)"

text \<open>\<^verbatim>\<open>handleTakeover\<close>: \<open>response_ok\<close> is whether the \<^verbatim>\<open>POST /human-takeover\<close> request
  came back with an ok status (a request that throws ends in the same \<^verbatim>\<open>catch\<close>). An
  empty token is falsy like a missing one.\<close>

definition handleTakeover ::
  "client \<Rightarrow> string \<Rightarrow> bool \<Rightarrow> history_row list option \<Rightarrow> client" where
  "handleTakeover st sessionId response_ok history_response =
     (if agent_token st = None \<or> agent_token st = Some [] \<or> agent_info st = None then st
      else if response_ok then
        showNotification ''You are now handling this conversation'' ''success''
          (loadConversationHistory history_response
             (st\<lparr>escalations := filter (\<lambda>e. esc_session_id e \<noteq> sessionId) (escalations st),
                 selected_session := Some sessionId\<rparr>))
      else showNotification ''Failed to take over conversation'' ''error'' st)"

section \<open>A small database and a client to run the code on\<close>

text \<open>One user on WhatsApp with an escalated, unassigned session (10) and an older closed
  session (11); two events of session 10, created one after the other; two agents online.\<close>

definition alice :: users_row where
  "alice = \<lparr>u_id = 1, u_channel = ''whatsapp'', u_channel_user_id = ''u1'',
            u_name = Some ''Alice'', u_metadata = Some (JObject []),
            u_created_at = Some 50, u_last_seen_at = Some 100\<rparr>"

definition session_10 :: sessions_row where
  "session_10 = \<lparr>s_id = 10, s_user_id = Some 1, s_channel = ''whatsapp'',
                 s_selected_category = Some ''billing'', s_category_selected_at = Some 101,
                 s_status = Some ''escalated'', s_assigned_agent_id = None,
                 s_escalated_at = Some 102, s_resolved_at = None,
                 s_created_at = Some 100, s_updated_at = Some 102\<rparr>"

definition session_11 :: sessions_row where
  "session_11 = \<lparr>s_id = 11, s_user_id = Some 1, s_channel = ''whatsapp'',
                 s_selected_category = None, s_category_selected_at = None,
                 s_status = Some ''closed'', s_assigned_agent_id = None,
                 s_escalated_at = None, s_resolved_at = None,
                 s_created_at = Some 50, s_updated_at = Some 60\<rparr>"

definition event_20 :: events_row where
  "event_20 = \<lparr>e_id = 20, e_session_id = Some 10, e_type = ''user_message'',
               e_sender = ''user'', e_content = Some ''hello'',
               e_metadata = Some (JObject []), e_created_at = Some 100\<rparr>"

definition event_21 :: events_row where
  "event_21 = \<lparr>e_id = 21, e_session_id = Some 10, e_type = ''bot_message'',
               e_sender = ''bot'', e_content = Some ''hi'',
               e_metadata = Some (JObject []), e_created_at = Some 101\<rparr>"

definition agent_a1 :: agents_row where
  "agent_a1 = \<lparr>a_id = ''a1'', a_name = ''Ada'', a_email = None, a_status = Some ''online'',
               a_current_sessions = Some 0, a_total_takeovers = Some 0,
               a_created_at = Some 1, a_last_active_at = Some 1\<rparr>"

definition agent_a2 :: agents_row where
  "agent_a2 = \<lparr>a_id = ''a2'', a_name = ''Bo'', a_email = None, a_status = Some ''online'',
               a_current_sessions = Some 0, a_total_takeovers = Some 0,
               a_created_at = Some 1, a_last_active_at = Some 1\<rparr>"

definition example_db :: db where
  "example_db = \<lparr>users = [alice], sessions = [session_10, session_11],
                 events = [event_20, event_21], conversation_costs = [],
                 agents = [agent_a1, agent_a2]\<rparr>"

text \<open>The same database with the second event created at the same instant as the first.\<close>

definition event_21_tied :: events_row where
  "event_21_tied = event_21\<lparr>e_created_at := Some 100\<rparr>"

definition tie_db :: db where
  "tie_db = example_db\<lparr>events := [event_20, event_21_tied]\<rparr>"

text \<open>The example after agent a1 took session 10 over at time 200, and after agent a2
  did the same at time 201.\<close>

definition taken_by_a1 :: db where
  "taken_by_a1 =
     example_db\<lparr>sessions := [session_10\<lparr>s_assigned_agent_id := Some ''a1'',
                                          s_updated_at := Some 200\<rparr>, session_11],
                events := [event_20, event_21,
                  \<lparr>e_id = 22, e_session_id = Some 10, e_type = ''takeover'',
                   e_sender = ''system'', e_content = Some ''Agent took over conversation'',
                   e_metadata = Some (JObject [(''agent_id'', JString ''a1'')]),
                   e_created_at = Some 200\<rparr>],
                agents := [agent_a1\<lparr>a_current_sessions := Some 1, a_total_takeovers := Some 1,
                                    a_status := Some ''busy'', a_last_active_at := Some 200\<rparr>,
                           agent_a2]\<rparr>"

definition taken_by_a2 :: db where
  "taken_by_a2 =
     taken_by_a1\<lparr>sessions := [session_10\<lparr>s_assigned_agent_id := Some ''a2'',
                                           s_updated_at := Some 201\<rparr>, session_11],
                 events := events taken_by_a1 @
                   [\<lparr>e_id = 23, e_session_id = Some 10, e_type = ''takeover'',
                     e_sender = ''system'', e_content = Some ''Agent took over conversation'',
                     e_metadata = Some (JObject [(''agent_id'', JString ''a2'')]),
                     e_created_at = Some 201\<rparr>],
                 agents := [agent_a1\<lparr>a_current_sessions := Some 1, a_total_takeovers := Some 1,
                                     a_status := Some ''busy'', a_last_active_at := Some 200\<rparr>,
                            agent_a2\<lparr>a_current_sessions := Some 1, a_total_takeovers := Some 1,
                                     a_status := Some ''busy'', a_last_active_at := Some 201\<rparr>]\<rparr>"

text \<open>The example after agent a1 took the closed session 11 over at time 200.\<close>

definition closed_taken_by_a1 :: db where
  "closed_taken_by_a1 =
     example_db\<lparr>sessions := [session_10,
                   session_11\<lparr>s_assigned_agent_id := Some ''a1'', s_updated_at := Some 200\<rparr>],
                events := [event_20, event_21,
                  \<lparr>e_id = 22, e_session_id = Some 11, e_type = ''takeover'',
                   e_sender = ''system'', e_content = Some ''Agent took over conversation'',
                   e_metadata = Some (JObject [(''agent_id'', JString ''a1'')]),
                   e_created_at = Some 200\<rparr>],
                agents := [agent_a1\<lparr>a_current_sessions := Some 1, a_total_takeovers := Some 1,
                                    a_status := Some ''busy'', a_last_active_at := Some 200\<rparr>,
                           agent_a2]\<rparr>"

text \<open>The example after session 10, already escalated, was escalated once more at time 200.\<close>

definition escalated_again :: db where
  "escalated_again =
     example_db\<lparr>sessions := [session_10\<lparr>s_escalated_at := Some 200, s_updated_at := Some 200\<rparr>,
                             session_11],
                events := [event_20, event_21,
                  \<lparr>e_id = 22, e_session_id = Some 10, e_type = ''escalation'',
                   e_sender = ''system'', e_content = Some ''still stuck'',
                   e_metadata = Some (JObject []), e_created_at = Some 200\<rparr>]\<rparr>"

text \<open>The example after Alice's channel user was seen again at time 200 under the name Bob:
  with session 10 reused, and with a new session 12.\<close>

definition bob_on_10 :: db where
  "bob_on_10 = example_db\<lparr>users := [alice\<lparr>u_last_seen_at := Some 200, u_name := Some ''Bob''\<rparr>],
                          sessions := [session_10\<lparr>s_updated_at := Some 200\<rparr>, session_11]\<rparr>"

definition bob_on_12 :: db where
  "bob_on_12 = example_db\<lparr>users := [alice\<lparr>u_last_seen_at := Some 200, u_name := Some ''Bob''\<rparr>],
                          sessions := [session_10, session_11,
                            \<lparr>s_id = 12, s_user_id = Some 1, s_channel = ''whatsapp'',
                             s_selected_category = None, s_category_selected_at = None,
                             s_status = Some ''active'', s_assigned_agent_id = None,
                             s_escalated_at = None, s_resolved_at = None,
                             s_created_at = Some 200, s_updated_at = Some 200\<rparr>]\<rparr>"

text \<open>A cost record for event 20.\<close>

definition example_cost :: costs_row where
  "example_cost = \<lparr>c_id = 30, c_session_id = Some 10, c_event_id = Some 20,
                   c_service = ''openai_completion'', c_model = Some ''gpt-4'',
                   c_input_tokens = Some 120, c_output_tokens = Some 30,
                   c_total_tokens = Some 150, c_cost_usd = 3 / 1000,
                   c_created_at = Some 200\<rparr>"

text \<open>An agent who is logged in and sees the escalated session 10 in the pending list.\<close>

definition pending_10 :: escalation where
  "pending_10 = \<lparr>esc_session_id = ''10'', esc_details = ''whatsapp, billing''\<rparr>"

definition example_client :: client where
  "example_client = \<lparr>agent_token = Some ''jwt'', agent_info = Some (''a2'', ''Bo''),
                     escalations = [pending_10], selected_session = None,
                     conversation_history = [], notification = None\<rparr>"

section \<open>Properties\<close>

subsection \<open>Facts about the statements\<close>

lemmas example_rows =
  example_db_def alice_def session_10_def session_11_def event_20_def event_21_def
  agent_a1_def agent_a2_def

lemma int4_add_one: "can_increment c \<Longrightarrow> int4_add c (Some 1) = Inr (incremented c)"
  by (cases c) (simp_all add: can_increment_def incremented_def int4_add_def)

lemma update_agents_fits:
  "\<forall>a\<in>set ags. a_id a = aid \<longrightarrow>
      can_increment (a_current_sessions a) \<and> can_increment (a_total_takeovers a) \<Longrightarrow>
   update_agents now (Some aid) ags =
     Inr (map (\<lambda>a. if a_id a = aid
                   then a\<lparr>a_current_sessions := incremented (a_current_sessions a),
                          a_total_takeovers := incremented (a_total_takeovers a),
                          a_status := Some ''busy'', a_last_active_at := Some now\<rparr>
                   else a) ags)"
  by (induction ags) (simp_all add: int4_add_one)

lemma update_agents_absent:
  "aid \<notin> set (map a_id ags) \<Longrightarrow> update_agents now (Some aid) ags = Inr ags"
  by (induction ags) auto

lemma sql_found_id: "sql_found (\<lambda>r. f r = k) rows = (k \<in> set (map f rows))"
  by (auto simp: sql_found_def list_ex_iff)

lemma varchar_fits: "length s \<le> n \<Longrightarrow> varchar n s = Inr s"
  by (simp add: varchar_def)

lemma varchar_null_fits: "fits n v \<Longrightarrow> varchar_null n v = Inr v"
  by (cases v) (simp_all add: varchar_null_def varchar_def fits_def)

lemma varchar_null_overlong: "varchar n s = Inl e \<Longrightarrow> varchar_null n (Some s) = Inl e"
  by (simp add: varchar_null_def)


text \<open>Rounding to six decimals moves a value by at most half a millionth, and a value of
  absolute value 10000 or more is out of the range of \<^verbatim>\<open>DECIMAL(10,6)\<close>.\<close>

lemma floor_half_near: "\<bar>of_int \<lfloor>x + 1 / 2\<rfloor> - x\<bar> \<le> 1 / 2" for x :: rat
proof -
  define y where "y = x + 1 / 2"
  have "of_int \<lfloor>y\<rfloor> \<le> y"
    by (rule of_int_floor_le)
  moreover have "y < of_int (\<lfloor>y\<rfloor> + 1)"
    using floor_correct [of y] by blast
  then have "y < of_int \<lfloor>y\<rfloor> + 1"
    by (simp only: of_int_add of_int_1)
  ultimately have "\<bar>of_int \<lfloor>y\<rfloor> - (y - 1 / 2)\<bar> \<le> 1 / 2"
    by linarith
  then show ?thesis
    by (simp add: y_def)
qed

lemma round_half_away_near: "\<bar>of_int (round_half_away q) - q\<bar> \<le> 1 / 2"
proof (cases "0 \<le> q")
  case True
  then show ?thesis
    using floor_half_near [of q] by (simp add: round_half_away_def)
next
  case False
  have "\<bar>- of_int \<lfloor>- q + 1 / 2\<rfloor> - q\<bar> = \<bar>of_int \<lfloor>- q + 1 / 2\<rfloor> - (- q)\<bar>"
    by linarith
  with False show ?thesis
    using floor_half_near [of "- q"] by (simp only: round_half_away_def if_False of_int_minus)
qed

lemma micros_near: "\<bar>of_int (micros q) / 1000000 - q\<bar> \<le> 1 / 2000000"
proof -
  have "\<bar>of_int (micros q) - q * 1000000\<bar> \<le> 1 / 2"
    unfolding micros_def by (rule round_half_away_near)
  then show ?thesis
    by (simp add: abs_le_iff field_simps)
qed

lemma micros_large:
  assumes "10000 \<le> \<bar>q\<bar>"
  shows "10000000000 \<le> \<bar>micros q\<bar>"
proof (cases "0 \<le> q")
  case True
  with assms have "(10000000000::rat) \<le> q * 1000000 + 1 / 2"
    by simp
  then have "10000000000 \<le> \<lfloor>q * 1000000 + 1 / 2\<rfloor>"
    by (simp add: le_floor_iff)
  with True show ?thesis
    by (simp add: micros_def round_half_away_def)
next
  case False
  with assms have "(10000000000::rat) \<le> - (q * 1000000) + 1 / 2"
    by simp
  then have "10000000000 \<le> \<lfloor>- (q * 1000000) + 1 / 2\<rfloor>"
    by (simp add: le_floor_iff)
  with False show ?thesis
    by (simp add: micros_def round_half_away_def mult_less_0_iff)
qed

lemma decimal_10_6_large: "10000 \<le> \<bar>q\<bar> \<Longrightarrow> decimal_10_6 q = Inl Numeric_value_out_of_range"
  using micros_large [of q] by (simp add: decimal_10_6_def)

lemma micros_examples:
  "micros 0 = 0" "micros (3 / 1000) = 3000" "micros (- 1) = - 1000000"
  "micros (1 / 2000000) = 1" "micros 10000 = 10000000000"
  by code_simp+

lemma set_session_category_result:
  "fits 50 cat \<Longrightarrow>
   set_session_category d now (Some sid) cat =
     Inr (sid \<in> set (map s_id (sessions d)),
          d\<lparr>sessions := map (\<lambda>s. if s_id s = sid
                                  then s\<lparr>s_selected_category := cat,
                                         s_category_selected_at := Some now,
                                         s_updated_at := Some now\<rparr>
                                  else s) (sessions d)\<rparr>)"
  by (simp add: set_session_category_def varchar_null_fits sql_found_id sql_update_def)

lemma escalate_session_result:
  assumes "new_event_id \<notin> set (map e_id (events d))"
  shows "escalate_session d now new_event_id (Some sid) reason =
     (if sid \<in> set (map s_id (sessions d)) then
        Inr (True,
             d\<lparr>sessions := map (\<lambda>s. if s_id s = sid
                                     then s\<lparr>s_status := Some ''escalated'',
                                            s_escalated_at := Some now,
                                            s_updated_at := Some now\<rparr>
                                     else s) (sessions d),
               events := events d @
                 [\<lparr>e_id = new_event_id, e_session_id = Some sid, e_type = ''escalation'',
                   e_sender = ''system'', e_content = reason,
                   e_metadata = Some (JObject []), e_created_at = Some now\<rparr>]\<rparr>)
      else Inl Foreign_key_violation)"
proof -
  have ids: "map s_id (sql_update P (\<lambda>s. s\<lparr>s_status := Some ''escalated'',
               s_escalated_at := Some now, s_updated_at := Some now\<rparr>) rows) = map s_id rows"
    for P and rows :: "sessions_row list"
    by (induction rows) (simp_all add: sql_update_def)
  show ?thesis
    using assms
    by (simp add: escalate_session_def insert_into_events_def fk_ok_def ids Let_def)
       (simp add: sql_update_def)
qed

lemma agent_takeover_result:
  assumes fresh: "new_event_id \<notin> set (map e_id (events d))"
    and agent: "aid \<in> set (map a_id (agents d))"
    and room: "\<forall>a\<in>set (agents d). a_id a = aid \<longrightarrow>
                 can_increment (a_current_sessions a) \<and> can_increment (a_total_takeovers a)"
  shows "agent_takeover d now new_event_id (Some sid) (Some aid) =
     (if sid \<in> set (map s_id (sessions d)) then
        Inr (True,
             d\<lparr>sessions := map (\<lambda>s. if s_id s = sid
                                     then s\<lparr>s_assigned_agent_id := Some aid,
                                            s_updated_at := Some now\<rparr>
                                     else s) (sessions d),
               events := events d @
                 [\<lparr>e_id = new_event_id, e_session_id = Some sid, e_type = ''takeover'',
                   e_sender = ''system'', e_content = Some ''Agent took over conversation'',
                   e_metadata = Some (JObject [(''agent_id'', JString aid)]),
                   e_created_at = Some now\<rparr>],
               agents := map (\<lambda>a. if a_id a = aid
                   then a\<lparr>a_current_sessions := incremented (a_current_sessions a),
                          a_total_takeovers := incremented (a_total_takeovers a),
                          a_status := Some ''busy'', a_last_active_at := Some now\<rparr>
                   else a) (agents d)\<rparr>)
      else Inl Foreign_key_violation)"
proof -
  have ids: "map s_id (sql_update P (\<lambda>s. s\<lparr>s_assigned_agent_id := Some aid,
               s_updated_at := Some now\<rparr>) rows) = map s_id rows"
    for P and rows :: "sessions_row list"
    by (induction rows) (simp_all add: sql_update_def)
  have found: "sql_found (\<lambda>a. a_id a = aid) (agents d)"
    using agent by (simp add: sql_found_id)
  show ?thesis
    using fresh found update_agents_fits [OF room, of now]
    by (simp add: agent_takeover_def insert_into_events_def fk_ok_def ids Let_def
        takeover_metadata_def)
       (simp add: sql_update_def)
qed

text \<open>With an agent id that is in no row of \<^verbatim>\<open>agents\<close> (and, like the ids of the rows,
  has at most 100 characters) the procedure still assigns the session and writes the
  takeover event, and then returns false, the \<^verbatim>\<open>FOUND\<close> of the agent \<^verbatim>\<open>UPDATE\<close>.\<close>

lemma agent_takeover_absent_agent:
  assumes fresh: "new_event_id \<notin> set (map e_id (events d))"
    and absent: "aid \<notin> set (map a_id (agents d))"
    and present: "sid \<in> set (map s_id (sessions d))"
    and width: "length aid \<le> 100"
  shows "agent_takeover d now new_event_id (Some sid) (Some aid) =
        Inr (False,
             d\<lparr>sessions := map (\<lambda>s. if s_id s = sid
                                     then s\<lparr>s_assigned_agent_id := Some aid,
                                            s_updated_at := Some now\<rparr>
                                     else s) (sessions d),
               events := events d @
                 [\<lparr>e_id = new_event_id, e_session_id = Some sid, e_type = ''takeover'',
                   e_sender = ''system'', e_content = Some ''Agent took over conversation'',
                   e_metadata = Some (JObject [(''agent_id'', JString aid)]),
                   e_created_at = Some now\<rparr>]\<rparr>)"
proof -
  have ids: "map s_id (sql_update P (\<lambda>s. s\<lparr>s_assigned_agent_id := Some aid,
               s_updated_at := Some now\<rparr>) rows) = map s_id rows"
    for P and rows :: "sessions_row list"
    by (induction rows) (simp_all add: sql_update_def)
  have nf: "\<not> sql_found (\<lambda>a. a_id a = aid) (agents d)"
    using absent by (simp add: sql_found_id)
  show ?thesis
    using fresh nf present update_agents_absent [OF absent, of now]
    by (simp add: agent_takeover_def insert_into_events_def fk_ok_def ids Let_def
        takeover_metadata_def)
       (simp add: sql_update_def)
qed

subsection \<open>Takeover: \<^verbatim>\<open>agent_takeover\<close>\<close>

text \<open>
  Claim C1 says that a takeover is accepted only on an escalated, unassigned session
  and that of several takeovers of one session exactly one is accepted. On the example,
  agent a1 takes the escalated session 10 and is accepted; agent a2 then takes the same
  session, now assigned to a1, and is accepted as well; the session ends assigned to a2.
  A takeover of session 11, which is closed, is accepted too.
\<close>

theorem agent_takeover_second_accepted:
  "agent_takeover example_db 200 22 (Some 10) (Some ''a1'') = Inr (True, taken_by_a1)
   \<and> map s_assigned_agent_id (sessions taken_by_a1) = [Some ''a1'', None]
   \<and> agent_takeover taken_by_a1 201 23 (Some 10) (Some ''a2'') = Inr (True, taken_by_a2)
   \<and> map s_assigned_agent_id (sessions taken_by_a2) = [Some ''a2'', None]
   \<and> s_status session_11 = Some ''closed''
   \<and> agent_takeover example_db 200 22 (Some 11) (Some ''a1'') = Inr (True, closed_taken_by_a1)"
  by (simp add: agent_takeover_def insert_into_events_def fk_ok_def sql_update_def
      sql_found_def takeover_metadata_def int4_add_def int4_def Let_def
      taken_by_a1_def taken_by_a2_def closed_taken_by_a1_def example_rows)

text \<open>
  Claim C1, amended. For an agent that exists (and whose counters can still grow) and a
  fresh event id, the outcome of \<^verbatim>\<open>agent_takeover\<close> depends on one thing only, whether
  the session exists; neither its status nor its current assignee is looked at. If the
  session exists the call returns true: \<^verbatim>\<open>assigned_agent_id\<close> becomes the caller,
  whoever held the session before, \<^verbatim>\<open>updated_at\<close> is stamped, one takeover event carrying
  the agent id is appended, and the agent's two counters grow by one and its status
  becomes busy. If the session does not exist the call fails with the foreign-key error
  (the spec's NotFound) and, being undone, changes nothing.
\<close>

theorem agent_takeover_unguarded:
  assumes fresh: "new_event_id \<notin> set (map e_id (events d))"
    and agent: "aid \<in> set (map a_id (agents d))"
    and room: "\<forall>a\<in>set (agents d). a_id a = aid \<longrightarrow>
                 can_increment (a_current_sessions a) \<and> can_increment (a_total_takeovers a)"
  shows "agent_takeover d now new_event_id (Some sid) (Some aid) =
     (if sid \<in> set (map s_id (sessions d)) then
        Inr (True,
             d\<lparr>sessions := map (\<lambda>s. if s_id s = sid
                                     then s\<lparr>s_assigned_agent_id := Some aid,
                                            s_updated_at := Some now\<rparr>
                                     else s) (sessions d),
               events := events d @
                 [\<lparr>e_id = new_event_id, e_session_id = Some sid, e_type = ''takeover'',
                   e_sender = ''system'', e_content = Some ''Agent took over conversation'',
                   e_metadata = Some (JObject [(''agent_id'', JString aid)]),
                   e_created_at = Some now\<rparr>],
               agents := map (\<lambda>a. if a_id a = aid
                   then a\<lparr>a_current_sessions := incremented (a_current_sessions a),
                          a_total_takeovers := incremented (a_total_takeovers a),
                          a_status := Some ''busy'', a_last_active_at := Some now\<rparr>
                   else a) (agents d)\<rparr>)
      else Inl Foreign_key_violation)"
  using fresh agent room by (rule agent_takeover_result)

text \<open>On the example after a1's takeover: a2's takeover of the assigned session 10 is
  accepted, a takeover of the missing session 12 fails.\<close>

theorem agent_takeover_unguarded_witness:
  "23 \<notin> set (map e_id (events taken_by_a1))
   \<and> ''a2'' \<in> set (map a_id (agents taken_by_a1))
   \<and> list_all (\<lambda>a. can_increment (a_current_sessions a) \<and> can_increment (a_total_takeovers a))
        (agents taken_by_a1)
   \<and> agent_takeover taken_by_a1 201 23 (Some 10) (Some ''a2'') = Inr (True, taken_by_a2)
   \<and> agent_takeover taken_by_a1 201 23 (Some 12) (Some ''a2'') = Inl Foreign_key_violation"
proof -
  have fresh: "23 \<notin> set (map e_id (events taken_by_a1))"
    by (simp add: taken_by_a1_def example_rows)
  have agent: "''a2'' \<in> set (map a_id (agents taken_by_a1))"
    by (simp add: taken_by_a1_def example_rows)
  have all: "list_all (\<lambda>a. can_increment (a_current_sessions a) \<and> can_increment (a_total_takeovers a))
        (agents taken_by_a1)"
    by (simp add: taken_by_a1_def example_rows can_increment_def int4_def)
  then have room: "\<forall>a\<in>set (agents taken_by_a1). a_id a = ''a2'' \<longrightarrow>
      can_increment (a_current_sessions a) \<and> can_increment (a_total_takeovers a)"
    by (simp add: list_all_iff)
  show ?thesis
    using fresh agent all
      agent_takeover_unguarded [OF fresh agent room, of 201 10]
      agent_takeover_unguarded [OF fresh agent room, of 201 12]
    by (simp add: taken_by_a1_def taken_by_a2_def example_rows incremented_def)
qed

subsection \<open>Terminal sessions\<close>

text \<open>
  Claim C2 says that every mutating operation on a closed or resolved session fails and
  changes nothing. On the example, session 11 is closed: setting its category returns
  true and stores the category, escalating it returns true and turns its status into
  escalated, a takeover of it returns true and assigns the agent, and an event is
  appended to it.
\<close>

theorem closed_session_mutated:
  "s_status session_11 = Some ''closed''
   \<and> set_session_category example_db 200 (Some 11) (Some ''billing'') =
       Inr (True, example_db\<lparr>sessions := [session_10,
              session_11\<lparr>s_selected_category := Some ''billing'',
                         s_category_selected_at := Some 200, s_updated_at := Some 200\<rparr>]\<rparr>)
   \<and> escalate_session example_db 200 22 (Some 11) None =
       Inr (True, example_db\<lparr>sessions := [session_10,
              session_11\<lparr>s_status := Some ''escalated'', s_escalated_at := Some 200,
                         s_updated_at := Some 200\<rparr>],
            events := [event_20, event_21,
              \<lparr>e_id = 22, e_session_id = Some 11, e_type = ''escalation'',
               e_sender = ''system'', e_content = None,
               e_metadata = Some (JObject []), e_created_at = Some 200\<rparr>]\<rparr>)
   \<and> agent_takeover example_db 200 22 (Some 11) (Some ''a1'') = Inr (True, closed_taken_by_a1)
   \<and> log_event example_db 200 22 (Some 11) (Some ''user_message'') (Some ''user'')
        (Some ''anyone?'') None =
       Inr (22, example_db\<lparr>events := [event_20, event_21,
              \<lparr>e_id = 22, e_session_id = Some 11, e_type = ''user_message'',
               e_sender = ''user'', e_content = Some ''anyone?'', e_metadata = None,
               e_created_at = Some 200\<rparr>],
            sessions := [session_10, session_11\<lparr>s_updated_at := Some 200\<rparr>]\<rparr>)"
  by (simp add: set_session_category_def escalate_session_def agent_takeover_def
      log_event_def insert_into_events_def takeover_metadata_def int4_add_def int4_def
      varchar_null_def varchar_def fk_ok_def sql_update_def sql_found_def Let_def
      closed_taken_by_a1_def example_rows)

text \<open>
  Claim C2, amended. No procedure looks at the status of the session it changes. On a
  session whose status is closed or resolved, as on any other, setting a category of at
  most 50 characters (or none) returns true and stores category and time stamps;
  escalating returns true, sets the status to escalated and appends an escalation event;
  a takeover by an existing agent returns true and assigns the agent; and appending an
  event whose type has at most 50 characters and whose sender has at most 20 inserts it
  and stamps \<^verbatim>\<open>updated_at\<close>. None of the four fails with an invalid-state or conflict
  error. (A longer category, type or sender is refused by the column it is stored in,
  whatever the status of the session: see \<open>varchar\<close>.)
\<close>

theorem terminal_session_still_mutable:
  assumes present: "s \<in> set (sessions d)"
    and terminal: "s_status s = Some ''closed'' \<or> s_status s = Some ''resolved''"
    and fresh: "new_event_id \<notin> set (map e_id (events d))"
    and agent: "aid \<in> set (map a_id (agents d))"
    and room: "\<forall>a\<in>set (agents d). a_id a = aid \<longrightarrow>
                 can_increment (a_current_sessions a) \<and> can_increment (a_total_takeovers a)"
    and cat_width: "fits 50 cat"
    and ty_width: "length ty \<le> 50"
    and sender_width: "length sender \<le> 20"
  shows "set_session_category d now (Some (s_id s)) cat =
           Inr (True,
                d\<lparr>sessions := map (\<lambda>r. if s_id r = s_id s
                                        then r\<lparr>s_selected_category := cat,
                                               s_category_selected_at := Some now,
                                               s_updated_at := Some now\<rparr>
                                        else r) (sessions d)\<rparr>)
     \<and> escalate_session d now new_event_id (Some (s_id s)) reason =
           Inr (True,
                d\<lparr>sessions := map (\<lambda>r. if s_id r = s_id s
                                        then r\<lparr>s_status := Some ''escalated'',
                                               s_escalated_at := Some now,
                                               s_updated_at := Some now\<rparr>
                                        else r) (sessions d),
                  events := events d @
                    [\<lparr>e_id = new_event_id, e_session_id = Some (s_id s),
                      e_type = ''escalation'', e_sender = ''system'', e_content = reason,
                      e_metadata = Some (JObject []), e_created_at = Some now\<rparr>]\<rparr>)
     \<and> agent_takeover d now new_event_id (Some (s_id s)) (Some aid) =
           Inr (True,
                d\<lparr>sessions := map (\<lambda>r. if s_id r = s_id s
                                        then r\<lparr>s_assigned_agent_id := Some aid,
                                               s_updated_at := Some now\<rparr>
                                        else r) (sessions d),
                  events := events d @
                    [\<lparr>e_id = new_event_id, e_session_id = Some (s_id s),
                      e_type = ''takeover'', e_sender = ''system'',
                      e_content = Some ''Agent took over conversation'',
                      e_metadata = Some (JObject [(''agent_id'', JString aid)]),
                      e_created_at = Some now\<rparr>],
                  agents := map (\<lambda>a. if a_id a = aid
                      then a\<lparr>a_current_sessions := incremented (a_current_sessions a),
                             a_total_takeovers := incremented (a_total_takeovers a),
                             a_status := Some ''busy'', a_last_active_at := Some now\<rparr>
                      else a) (agents d)\<rparr>)
     \<and> log_event d now new_event_id (Some (s_id s)) (Some ty) (Some sender) content meta =
           Inr (new_event_id,
                d\<lparr>events := events d @
                    [\<lparr>e_id = new_event_id, e_session_id = Some (s_id s), e_type = ty,
                      e_sender = sender, e_content = content, e_metadata = meta,
                      e_created_at = Some now\<rparr>],
                  sessions := map (\<lambda>r. if s_id r = s_id s then r\<lparr>s_updated_at := Some now\<rparr>
                                        else r) (sessions d)\<rparr>)"
proof -
  have here: "s_id s \<in> set (map s_id (sessions d))"
    using present by simp
  have "set_session_category d now (Some (s_id s)) cat =
           Inr (True,
                d\<lparr>sessions := map (\<lambda>r. if s_id r = s_id s
                                        then r\<lparr>s_selected_category := cat,
                                               s_category_selected_at := Some now,
                                               s_updated_at := Some now\<rparr>
                                        else r) (sessions d)\<rparr>)"
    using here by (simp add: set_session_category_result [OF cat_width])
  moreover note escalate_session_result [OF fresh, of now "s_id s" reason]
    agent_takeover_result [OF fresh agent room, of now "s_id s"]
  moreover have "log_event d now new_event_id (Some (s_id s)) (Some ty) (Some sender) content meta =
           Inr (new_event_id,
                d\<lparr>events := events d @
                    [\<lparr>e_id = new_event_id, e_session_id = Some (s_id s), e_type = ty,
                      e_sender = sender, e_content = content, e_metadata = meta,
                      e_created_at = Some now\<rparr>],
                  sessions := map (\<lambda>r. if s_id r = s_id s then r\<lparr>s_updated_at := Some now\<rparr>
                                        else r) (sessions d)\<rparr>)"
    using fresh here ty_width sender_width
    by (simp add: log_event_def varchar_null_def varchar_fits insert_into_events_def
        fk_ok_def sql_update_def)
  ultimately show ?thesis
    using here by simp
qed

text \<open>On the example, with the closed session 11.\<close>

theorem terminal_session_still_mutable_witness:
  "session_11 \<in> set (sessions example_db)
   \<and> s_status session_11 = Some ''closed''
   \<and> 22 \<notin> set (map e_id (events example_db))
   \<and> ''a1'' \<in> set (map a_id (agents example_db))
   \<and> list_all (\<lambda>a. can_increment (a_current_sessions a) \<and> can_increment (a_total_takeovers a))
        (agents example_db)
   \<and> fits 50 (Some ''billing'')
   \<and> length ''user_message'' \<le> 50 \<and> length ''user'' \<le> 20
   \<and> set_session_category example_db 200 (Some 11) (Some ''billing'') =
       Inr (True, example_db\<lparr>sessions := [session_10,
              session_11\<lparr>s_selected_category := Some ''billing'',
                         s_category_selected_at := Some 200, s_updated_at := Some 200\<rparr>]\<rparr>)
   \<and> agent_takeover example_db 200 22 (Some 11) (Some ''a1'') =
       Inr (True, example_db\<lparr>sessions := [session_10,
              session_11\<lparr>s_assigned_agent_id := Some ''a1'', s_updated_at := Some 200\<rparr>],
            events := [event_20, event_21,
              \<lparr>e_id = 22, e_session_id = Some 11, e_type = ''takeover'',
               e_sender = ''system'', e_content = Some ''Agent took over conversation'',
               e_metadata = Some (JObject [(''agent_id'', JString ''a1'')]),
               e_created_at = Some 200\<rparr>],
            agents := [agent_a1\<lparr>a_current_sessions := Some 1, a_total_takeovers := Some 1,
                                a_status := Some ''busy'', a_last_active_at := Some 200\<rparr>,
                       agent_a2]\<rparr>)
   \<and> log_event example_db 200 22 (Some 11) (Some ''user_message'') (Some ''user'')
        (Some ''anyone?'') None =
       Inr (22, example_db\<lparr>events := [event_20, event_21,
              \<lparr>e_id = 22, e_session_id = Some 11, e_type = ''user_message'',
               e_sender = ''user'', e_content = Some ''anyone?'', e_metadata = None,
               e_created_at = Some 200\<rparr>],
            sessions := [session_10, session_11\<lparr>s_updated_at := Some 200\<rparr>]\<rparr>)"
proof -
  have present: "session_11 \<in> set (sessions example_db)"
    by (simp add: example_db_def)
  have terminal: "s_status session_11 = Some ''closed'' \<or> s_status session_11 = Some ''resolved''"
    by (simp add: session_11_def)
  have fresh: "22 \<notin> set (map e_id (events example_db))"
    by (simp add: example_rows)
  have agent: "''a1'' \<in> set (map a_id (agents example_db))"
    by (simp add: example_rows)
  have all: "list_all (\<lambda>a. can_increment (a_current_sessions a) \<and> can_increment (a_total_takeovers a))
        (agents example_db)"
    by (simp add: example_rows can_increment_def int4_def)
  then have room: "\<forall>a\<in>set (agents example_db). a_id a = ''a1'' \<longrightarrow>
      can_increment (a_current_sessions a) \<and> can_increment (a_total_takeovers a)"
    by (simp add: list_all_iff)
  have cat_width: "fits 50 (Some ''billing'')"
    by (simp add: fits_def)
  have ty_width: "length ''user_message'' \<le> 50"
    by simp
  have sender_width: "length ''user'' \<le> 20"
    by simp
  show ?thesis
    using present fresh agent all cat_width
      terminal_session_still_mutable [OF present terminal fresh agent room cat_width ty_width
        sender_width,
        of 200 None "Some ''anyone?''" None]
    by (simp add: example_rows incremented_def)
qed

subsection \<open>Session lookup: \<^verbatim>\<open>create_or_get_session\<close>\<close>

lemmas create_or_get_session_unfold =
  create_or_get_session_def upsert_user_def select_open_session_def insert_session_def
  session_details_def open_status_def coalesce_def fk_ok_def sql_update_def Let_def
  varchar_null_def varchar_def

text \<open>
  Claim C3 says that a call for a user who has an active or escalated session returns
  that session's id. Under PostgreSQL's default resolution of names the call returns
  nothing: on the example, where Alice's channel user has the escalated session 10, the
  lookup statement raises \<^verbatim>\<open>ambiguous_column\<close> and the call fails.
\<close>

theorem create_or_get_session_ambiguous:
  "create_or_get_session Conflict_error example_db 200 2 12 (Some ''whatsapp'') (Some ''u1'') None
     = Inl Ambiguous_column"
  by (simp add: create_or_get_session_unfold example_rows)

text \<open>Under that setting no call returns at all, whatever the database and the arguments.\<close>

lemma create_or_get_session_never_returns:
  "\<exists>e. create_or_get_session Conflict_error d now new_user_id new_session_id p_channel
          p_channel_user_id p_user_name = Inl e"
  by (auto simp: create_or_get_session_def select_open_session_def split: sum.splits prod.splits)

lemma find_map_key:
  assumes "\<And>x. P (f x) = P x"
  shows "find P (map f xs) = map_option f (find P xs)"
  by (induction xs) (auto simp: assms)

lemma filter_map_key:
  assumes "\<And>x. P (f x) = P x"
  shows "filter P (map f xs) = map f (filter P xs)"
  by (induction xs) (auto simp: assms)

text \<open>
  What Claim C3 describes is what the procedure does once the names of its lookup are
  read as columns (\<open>Use_column\<close>). If the channel user has exactly one active or escalated
  session, and the arguments fit the columns of \<^verbatim>\<open>users\<close>, the call succeeds, every row it
  returns carries that session's id and there is at least one, the table of sessions has
  the same ids as before, so no session was created, and that session, with \<^verbatim>\<open>updated_at\<close>
  stamped, is again the user's only open session afterwards: every further call meets
  the same condition and returns the same id, whatever fitting name and time it is given.
\<close>

theorem create_or_get_session_reuses:
  assumes only: "open_sessions d ch cu = [s]"
    and ch_width: "length ch \<le> 20"
    and cu_width: "length cu \<le> 255"
    and name_width: "fits 255 p_user_name"
  shows "\<exists>rows d'.
      create_or_get_session Use_column d now new_user_id new_session_id (Some ch) (Some cu)
        p_user_name = Inr (rows, d')
      \<and> rows \<noteq> [] \<and> list_all (\<lambda>r. fst r = s_id s) rows
      \<and> map s_id (sessions d') = map s_id (sessions d)
      \<and> open_sessions d' ch cu = [s\<lparr>s_updated_at := Some now\<rparr>]"
proof -
  let ?key = "\<lambda>u. u_channel u = ch \<and> u_channel_user_id u = cu"
  from only obtain u where u: "find ?key (users d) = Some u"
    by (auto simp: open_sessions_def split: option.splits)
  let ?mine = "\<lambda>r. s_user_id r = Some (u_id u) \<and> open_status (s_status r)"
  from only u have mine: "filter ?mine (sessions d) = [s]"
    by (simp add: open_sessions_def)
  let ?seen = "\<lambda>r. if ?key r then r\<lparr>u_last_seen_at := Some now,
                     u_name := coalesce p_user_name (u_name r)\<rparr> else r"
  let ?touch = "\<lambda>r. if s_id r = s_id s then r\<lparr>s_updated_at := Some now\<rparr> else r"
  let ?d' = "d\<lparr>users := map ?seen (users d), sessions := map ?touch (sessions d)\<rparr>"
  let ?rows = "map session_details (filter (\<lambda>r. s_id r = s_id s) (map ?touch (sessions d)))"
  have run: "create_or_get_session Use_column d now new_user_id new_session_id (Some ch) (Some cu)
        p_user_name = Inr (?rows, ?d')"
    using u mine ch_width cu_width
    by (simp add: create_or_get_session_def upsert_user_def select_open_session_def
        sql_update_def Let_def varchar_null_fits [OF name_width] varchar_null_fits fits_def)
  have "s \<in> set (filter ?mine (sessions d))"
    by (simp add: mine)
  then have "s \<in> set (sessions d)"
    by simp
  then have "?touch s \<in> ?touch ` set (sessions d)"
    by (rule imageI)
  moreover have "s_id (?touch s) = s_id s"
    by simp
  ultimately have "?touch s \<in> set (filter (\<lambda>r. s_id r = s_id s) (map ?touch (sessions d)))"
    unfolding set_filter set_map by blast
  then have "filter (\<lambda>r. s_id r = s_id s) (map ?touch (sessions d)) \<noteq> []"
    by (metis empty_iff empty_set)
  then have nonempty: "?rows \<noteq> []"
    by simp
  have all: "list_all (\<lambda>r. fst r = s_id s) ?rows"
    by (simp add: list_all_iff session_details_def)
  have ids: "map s_id (map ?touch xs) = map s_id xs" for xs
    by (induction xs) simp_all
  have user': "find ?key (users ?d') = Some (?seen u)"
    using u by (simp add: find_map_key)
  have "filter ?mine (map ?touch (sessions d)) = map ?touch (filter ?mine (sessions d))"
    by (rule filter_map_key) simp
  then have "filter ?mine (sessions ?d') = [s\<lparr>s_updated_at := Some now\<rparr>]"
    by (simp add: mine)
  moreover have "u_id (?seen u) = u_id u"
    by simp
  ultimately have only': "open_sessions ?d' ch cu = [s\<lparr>s_updated_at := Some now\<rparr>]"
    using user' by (simp add: open_sessions_def)
  show ?thesis
    using run nonempty all ids [of "sessions d"] only' by auto
qed

text \<open>On the example: Alice's channel user has the one open session 10.\<close>

theorem create_or_get_session_reuses_witness:
  "open_sessions example_db ''whatsapp'' ''u1'' = [session_10]
   \<and> create_or_get_session Use_column example_db 200 2 12 (Some ''whatsapp'') (Some ''u1'')
        (Some ''Bob'') =
       Inr ([(10, Some 1, Some ''billing'', Some ''escalated'')], bob_on_10)
   \<and> map s_id (sessions bob_on_10) = map s_id (sessions example_db)
   \<and> open_sessions bob_on_10 ''whatsapp'' ''u1'' = [session_10\<lparr>s_updated_at := Some 200\<rparr>]"
proof -
  have only: "open_sessions example_db ''whatsapp'' ''u1'' = [session_10]"
    by (simp add: open_sessions_def open_status_def example_rows)
  have run: "create_or_get_session Use_column example_db 200 2 12 (Some ''whatsapp'')
        (Some ''u1'') (Some ''Bob'') =
       Inr ([(10, Some 1, Some ''billing'', Some ''escalated'')], bob_on_10)"
    by (simp add: create_or_get_session_unfold example_rows bob_on_10_def)
  have name_width: "fits 255 (Some ''Bob'')"
    by (simp add: fits_def)
  from create_or_get_session_reuses [OF only _ _ name_width, of 200 2 12] run
  have "map s_id (sessions bob_on_10) = map s_id (sessions example_db)
     \<and> open_sessions bob_on_10 ''whatsapp'' ''u1'' = [session_10\<lparr>s_updated_at := Some 200\<rparr>]"
    by auto
  with only run show ?thesis by simp
qed


text \<open>
  Claim C4 says that a call leaves a stored name alone and updates \<^verbatim>\<open>last_seen\<close> on
  every call. On the example the user is stored as Alice, last seen at 100, and is seen
  again at 200 under the name Bob. Whichever way the names of the lookup statement are
  resolved, the claim fails: read as columns or as variables, the call stores the name
  Bob; under the default setting the call fails and \<^verbatim>\<open>last_seen\<close> stays 100.
\<close>

theorem display_name_replaces_stored_name:
  "u_name alice = Some ''Alice'' \<and> u_last_seen_at alice = Some 100
   \<and> create_or_get_session Use_column example_db 200 2 12 (Some ''whatsapp'') (Some ''u1'')
        (Some ''Bob'') =
       Inr ([(10, Some 1, Some ''billing'', Some ''escalated'')], bob_on_10)
   \<and> create_or_get_session Use_variable example_db 200 2 12 (Some ''whatsapp'') (Some ''u1'')
        (Some ''Bob'') =
       Inr ([(12, Some 1, None, Some ''active'')], bob_on_12)
   \<and> map u_name (users bob_on_10) = [Some ''Bob'']
   \<and> map u_name (users bob_on_12) = [Some ''Bob'']
   \<and> create_or_get_session Conflict_error example_db 200 2 12 (Some ''whatsapp'') (Some ''u1'')
        (Some ''Bob'') = Inl Ambiguous_column"
  by (simp add: create_or_get_session_unfold example_rows bob_on_10_def bob_on_12_def)

text \<open>
  A display name that does not fit the column \<^verbatim>\<open>users.name\<close>, 256 letters for one, is
  refused before the conflict clause is reached: the call fails and \<^verbatim>\<open>last_seen_at\<close> is not
  updated either.
\<close>

lemma upsert_user_long_name:
  assumes "varchar 255 n = Inl e" "length ch \<le> 20" "length cu \<le> 255"
  shows "upsert_user d now new_user_id (Some ch) (Some cu) (Some n) = Inl e"
  using assms by (simp add: upsert_user_def varchar_null_overlong varchar_null_fits fits_def)

lemma upsert_user_long_name_example:
  "upsert_user example_db 200 2 (Some ''whatsapp'') (Some ''u1'')
     (Some (replicate 256 (CHR ''x''))) = Inl String_data_right_truncation"
  by (rule upsert_user_long_name) (simp_all add: varchar_def list_all_iff)

lemma find_present:
  "u \<in> set xs \<Longrightarrow> P u \<Longrightarrow> \<exists>v. find P xs = Some v \<and> P v \<and> v \<in> set xs"
  by (induction xs) auto

lemma upsert_user_existing:
  assumes "u \<in> set (users d)" "u_channel u = ch" "u_channel_user_id u = cu"
    and "length ch \<le> 20" "length cu \<le> 255" "fits 255 p_user_name"
  shows "\<exists>uid. upsert_user d now new_user_id (Some ch) (Some cu) p_user_name =
           Inr (uid,
                d\<lparr>users := map (\<lambda>r. if u_channel r = ch \<and> u_channel_user_id r = cu
                                     then r\<lparr>u_last_seen_at := Some now,
                                            u_name := coalesce p_user_name (u_name r)\<rparr>
                                     else r) (users d)\<rparr>)"
proof -
  from find_present [of u "users d" "\<lambda>u. u_channel u = ch \<and> u_channel_user_id u = cu"] assms
  obtain v where "find (\<lambda>u. u_channel u = ch \<and> u_channel_user_id u = cu) (users d) = Some v"
    by auto
  then show ?thesis
    using assms by (simp add: upsert_user_def sql_update_def varchar_null_fits fits_def)
qed

lemma insert_session_users:
  "insert_session d now new_session_id v_user_id p_channel = Inr (sid, d') \<Longrightarrow> users d' = users d"
  by (auto simp: insert_session_def split: sum.splits option.splits if_splits)

lemma create_or_get_session_users:
  assumes "create_or_get_session vc d now new_user_id new_session_id p_channel p_channel_user_id
             p_user_name = Inr (rows, d')"
    and "upsert_user d now new_user_id p_channel p_channel_user_id p_user_name = Inr (uid, d1)"
  shows "users d' = users d1"
  using assms
  by (auto simp: create_or_get_session_def Let_def split: sum.splits option.splits
      dest: insert_session_users)

text \<open>
  Claim C4, amended. On an existing user, and with a display name of at most 255
  characters or none, the upsert statement that opens the procedure succeeds, sets
  \<^verbatim>\<open>last_seen_at\<close> to the call time, and sets the name to the display name whenever one is
  given, whether or not a name was stored before; the stored name is kept only when the
  display name is NULL. Every call that completes leaves the table of users as this
  statement wrote it. (The channel and the channel user id are those of a stored row;
  that they fit their columns, 20 and 255 characters, is stated with them.)
\<close>

theorem upsert_user_overwrites_name:
  assumes present: "u \<in> set (users d)"
    and channel: "u_channel u = ch"
    and channel_user: "u_channel_user_id u = cu"
    and ch_width: "length ch \<le> 20"
    and cu_width: "length cu \<le> 255"
    and name_width: "fits 255 p_user_name"
  shows "\<exists>uid d1.
      upsert_user d now new_user_id (Some ch) (Some cu) p_user_name = Inr (uid, d1)
      \<and> users d1 = map (\<lambda>r. if u_channel r = ch \<and> u_channel_user_id r = cu
                             then r\<lparr>u_last_seen_at := Some now,
                                    u_name := (case p_user_name of None \<Rightarrow> u_name r
                                               | Some n \<Rightarrow> Some n)\<rparr>
                             else r) (users d)
      \<and> u\<lparr>u_last_seen_at := Some now,
           u_name := (case p_user_name of None \<Rightarrow> u_name u | Some n \<Rightarrow> Some n)\<rparr>
          \<in> set (users d1)
      \<and> (\<forall>vc new_session_id rows d'.
            create_or_get_session vc d now new_user_id new_session_id (Some ch) (Some cu)
              p_user_name = Inr (rows, d')
            \<longrightarrow> users d' = users d1)"
proof -
  from upsert_user_existing [OF present channel channel_user ch_width cu_width name_width,
      of now new_user_id]
  obtain uid where run:
    "upsert_user d now new_user_id (Some ch) (Some cu) p_user_name =
       Inr (uid,
            d\<lparr>users := map (\<lambda>r. if u_channel r = ch \<and> u_channel_user_id r = cu
                                 then r\<lparr>u_last_seen_at := Some now,
                                        u_name := coalesce p_user_name (u_name r)\<rparr>
                                 else r) (users d)\<rparr>)"
    (is "_ = Inr (uid, ?d1)")
    by blast
  have co: "coalesce p_user_name x = (case p_user_name of None \<Rightarrow> x | Some n \<Rightarrow> Some n)" for x
    by (simp add: coalesce_def)
  have users1: "users ?d1 = map (\<lambda>r. if u_channel r = ch \<and> u_channel_user_id r = cu
                             then r\<lparr>u_last_seen_at := Some now,
                                    u_name := (case p_user_name of None \<Rightarrow> u_name r
                                               | Some n \<Rightarrow> Some n)\<rparr>
                             else r) (users d)"
    by (simp add: co)
  have row: "u\<lparr>u_last_seen_at := Some now,
           u_name := (case p_user_name of None \<Rightarrow> u_name u | Some n \<Rightarrow> Some n)\<rparr>
          \<in> set (users ?d1)"
    unfolding users1 using present channel channel_user by (force simp: image_iff)
  have later: "users d' = users ?d1"
    if "create_or_get_session vc d now new_user_id new_session_id (Some ch) (Some cu)
              p_user_name = Inr (rows, d')" for vc new_session_id rows d'
    using create_or_get_session_users [OF that run] .
  show ?thesis
    using run users1 row later by blast
qed

text \<open>On the example: the name Bob replaces Alice, no name keeps Alice.\<close>

theorem upsert_user_overwrites_name_witness:
  "alice \<in> set (users example_db) \<and> u_channel alice = ''whatsapp''
   \<and> u_channel_user_id alice = ''u1'' \<and> u_name alice = Some ''Alice''
   \<and> length ''whatsapp'' \<le> 20 \<and> length ''u1'' \<le> 255 \<and> fits 255 (Some ''Bob'')
   \<and> upsert_user example_db 200 2 (Some ''whatsapp'') (Some ''u1'') (Some ''Bob'') =
       Inr (1, example_db\<lparr>users := [alice\<lparr>u_last_seen_at := Some 200, u_name := Some ''Bob''\<rparr>]\<rparr>)
   \<and> upsert_user example_db 200 2 (Some ''whatsapp'') (Some ''u1'') None =
       Inr (1, example_db\<lparr>users := [alice\<lparr>u_last_seen_at := Some 200\<rparr>]\<rparr>)
   \<and> (\<exists>uid d1. upsert_user example_db 200 2 (Some ''whatsapp'') (Some ''u1'') (Some ''Bob'')
                  = Inr (uid, d1)
         \<and> alice\<lparr>u_last_seen_at := Some 200, u_name := Some ''Bob''\<rparr> \<in> set (users d1))"
proof -
  have present: "alice \<in> set (users example_db)"
    by (simp add: example_db_def)
  have channel: "u_channel alice = ''whatsapp''" and channel_user: "u_channel_user_id alice = ''u1''"
    by (simp_all add: alice_def)
  have runs: "upsert_user example_db 200 2 (Some ''whatsapp'') (Some ''u1'') (Some ''Bob'') =
       Inr (1, example_db\<lparr>users := [alice\<lparr>u_last_seen_at := Some 200, u_name := Some ''Bob''\<rparr>]\<rparr>)"
    "upsert_user example_db 200 2 (Some ''whatsapp'') (Some ''u1'') None =
       Inr (1, example_db\<lparr>users := [alice\<lparr>u_last_seen_at := Some 200\<rparr>]\<rparr>)"
    by (simp_all add: upsert_user_def varchar_null_def varchar_def sql_update_def coalesce_def
        example_rows)
  have name_width: "fits 255 (Some ''Bob'')"
    by (simp add: fits_def)
  from upsert_user_overwrites_name [OF present channel channel_user _ _ name_width, of 200 2]
  have "\<exists>uid d1. upsert_user example_db 200 2 (Some ''whatsapp'') (Some ''u1'') (Some ''Bob'')
                  = Inr (uid, d1)
         \<and> alice\<lparr>u_last_seen_at := Some 200, u_name := Some ''Bob''\<rparr> \<in> set (users d1)"
    by auto
  with present channel channel_user runs name_width show ?thesis
    by (simp add: alice_def)
qed

subsection \<open>History: \<^verbatim>\<open>get_session_history\<close>\<close>

lemma created_le_total: "created_le a b \<or> created_le b a"
  by (cases a; cases b) auto

lemma created_le_trans: "created_le a b \<Longrightarrow> created_le b c \<Longrightarrow> created_le a c"
  by (cases a; cases b; cases c) auto

lemma set_insert_event_sorted: "set (insert_event_sorted e xs) = insert e (set xs)"
  by (induction xs) auto

lemma mset_insert_event_sorted: "mset (insert_event_sorted e xs) = add_mset e (mset xs)"
  by (induction xs) auto

lemma sorted_insert_event_sorted:
  assumes "sorted_wrt (\<lambda>a b. created_le (e_created_at a) (e_created_at b)) xs"
  shows "sorted_wrt (\<lambda>a b. created_le (e_created_at a) (e_created_at b)) (insert_event_sorted e xs)"
  using assms
proof (induction xs)
  case Nil
  then show ?case by simp
next
  case (Cons x xs)
  show ?case
  proof (cases "created_le (e_created_at e) (e_created_at x)")
    case True
    then have "\<forall>y\<in>set xs. created_le (e_created_at e) (e_created_at y)"
      using Cons.prems by (auto intro: created_le_trans)
    with True Cons.prems show ?thesis by simp
  next
    case False
    then have "created_le (e_created_at x) (e_created_at e)"
      using created_le_total by blast
    with False Cons show ?thesis
      by (auto simp: set_insert_event_sorted)
  qed
qed

lemma order_by_created_at_sorts: "sorts_by_created_at order_by_created_at"
proof -
  have "mset (order_by_created_at rows) = mset rows" for rows
    by (induction rows) (simp_all add: order_by_created_at_def mset_insert_event_sorted)
  moreover have "sorted_wrt (\<lambda>a b. created_le (e_created_at a) (e_created_at b))
      (order_by_created_at rows)" for rows
    by (induction rows) (simp_all add: order_by_created_at_def sorted_insert_event_sorted)
  ultimately show ?thesis by (simp add: sorts_by_created_at_def)
qed

lemma set_insert_event_after_ties: "set (insert_event_after_ties e xs) = insert e (set xs)"
  by (induction xs) auto

lemma mset_insert_event_after_ties: "mset (insert_event_after_ties e xs) = add_mset e (mset xs)"
  by (induction xs) auto

lemma sorted_insert_event_after_ties:
  assumes "sorted_wrt (\<lambda>a b. created_le (e_created_at a) (e_created_at b)) xs"
  shows "sorted_wrt (\<lambda>a b. created_le (e_created_at a) (e_created_at b))
           (insert_event_after_ties e xs)"
  using assms
proof (induction xs)
  case Nil
  then show ?case by simp
next
  case (Cons x xs)
  show ?case
  proof (cases "created_le (e_created_at x) (e_created_at e)")
    case True
    with Cons show ?thesis
      by (auto simp: set_insert_event_after_ties)
  next
    case False
    then have first: "created_le (e_created_at e) (e_created_at x)"
      using created_le_total by blast
    then have "\<forall>y\<in>set xs. created_le (e_created_at e) (e_created_at y)"
      using Cons.prems by (auto intro: created_le_trans)
    with False first Cons.prems show ?thesis by simp
  qed
qed

lemma order_by_created_at_ties_reversed_sorts:
  "sorts_by_created_at order_by_created_at_ties_reversed"
proof -
  have "mset (order_by_created_at_ties_reversed rows) = mset rows" for rows
    by (induction rows)
       (simp_all add: order_by_created_at_ties_reversed_def mset_insert_event_after_ties)
  moreover have "sorted_wrt (\<lambda>a b. created_le (e_created_at a) (e_created_at b))
      (order_by_created_at_ties_reversed rows)" for rows
    by (induction rows)
       (simp_all add: order_by_created_at_ties_reversed_def sorted_insert_event_after_ties)
  ultimately show ?thesis by (simp add: sorts_by_created_at_def)
qed

lemma mset_two: "mset ys = {#a, b#} \<Longrightarrow> ys = [a, b] \<or> ys = [b, a]"
proof -
  assume two: "mset ys = {#a, b#}"
  then have "length ys = 2"
    by (metis size_mset size_add_mset size_empty One_nat_def Suc_1)
  then obtain y1 y2 where "ys = [y1, y2]"
    by (metis (no_types) length_0_conv length_Suc_conv numeral_2_eq_2)
  with two show ?thesis
    by (auto simp: add_eq_conv_ex)
qed

lemma sorted_pair_fixed:
  assumes sorts: "sorts_by_created_at order_by"
    and later: "\<not> created_le (e_created_at b) (e_created_at a)"
  shows "order_by [a, b] = [a, b]"
proof -
  from sorts have perm: "mset (order_by [a, b]) = {#a, b#}"
    and sorted: "sorted_wrt (\<lambda>a b. created_le (e_created_at a) (e_created_at b)) (order_by [a, b])"
    by (simp_all add: sorts_by_created_at_def)
  from mset_two [OF perm] show ?thesis
  proof
    assume "order_by [a, b] = [a, b]"
    then show ?thesis .
  next
    assume "order_by [a, b] = [b, a]"
    with sorted later show ?thesis by simp
  qed
qed

text \<open>
  Claim C5 says that a call can be resumed from a cursor so that it yields the events
  after the last one seen without repeating any, and that events of equal creation time
  come in the order of an insertion counter. The procedure takes the session and a limit
  and nothing else, and it orders by \<^verbatim>\<open>created_at\<close> alone. On the example, session 10
  has the events 20 and 21: a limit of one yields event 20, a limit of two yields events
  20 and 21, and no limit and no sort that SQL admits make a call yield event 21 alone.
  With both events created at the same instant, a sort that SQL admits returns event 21,
  inserted second, before event 20.
\<close>

theorem history_has_no_cursor:
  "get_session_history order_by_created_at example_db (Some 10) (Some 1) =
     Inr [history_of event_20]
   \<and> get_session_history order_by_created_at example_db (Some 10) (Some 2) =
     Inr [history_of event_20, history_of event_21]
   \<and> \<not> (\<exists>order_by p_limit. sorts_by_created_at order_by \<and>
          get_session_history order_by example_db (Some 10) p_limit = Inr [history_of event_21])
   \<and> sorts_by_created_at order_by_created_at_ties_reversed
   \<and> get_session_history order_by_created_at_ties_reversed tie_db (Some 10) None =
     Inr [history_of event_21_tied, history_of event_20]"
proof -
  have rows: "session_events example_db (Some 10) = [event_20, event_21]"
    by (simp add: session_events_def example_rows)
  have later: "\<not> created_le (e_created_at event_21) (e_created_at event_20)"
    by (simp add: example_rows)
  have differ: "history_of event_20 \<noteq> history_of event_21"
    by (simp add: history_of_def example_rows)
  have never: "get_session_history order_by example_db (Some 10) p_limit \<noteq> Inr [history_of event_21]"
    if sorts: "sorts_by_created_at order_by" for order_by p_limit
  proof -
    note full = sorted_pair_fixed [OF sorts later]
    show ?thesis
    proof (cases p_limit)
      case None
      then show ?thesis by (simp add: get_session_history_def rows full)
    next
      case (Some n)
      show ?thesis
      proof (cases "nat n")
        case 0
        then show ?thesis using Some by (simp add: get_session_history_def rows full)
      next
        case (Suc k)
        then show ?thesis using Some differ by (simp add: get_session_history_def rows full)
      qed
    qed
  qed
  have pages: "get_session_history order_by_created_at example_db (Some 10) (Some 1) =
     Inr [history_of event_20]"
    "get_session_history order_by_created_at example_db (Some 10) (Some 2) =
     Inr [history_of event_20, history_of event_21]"
    by (simp_all add: get_session_history_def rows
        sorted_pair_fixed [OF order_by_created_at_sorts later])
  have tied: "get_session_history order_by_created_at_ties_reversed tie_db (Some 10) None =
     Inr [history_of event_21_tied, history_of event_20]"
    by (simp add: get_session_history_def session_events_def
        order_by_created_at_ties_reversed_def tie_db_def event_21_tied_def example_rows)
  from pages never order_by_created_at_ties_reversed_sorts tied show ?thesis
    by blast
qed

text \<open>
  Claim C5, amended. Whatever order the executor gives to rows of equal creation time,
  for a non-negative limit the procedure returns the first \<^verbatim>\<open>limit\<close> rows of the
  session's full history, and the full history (the answer to a call without limit) is
  exactly the events of that session, each once, in ascending order of \<^verbatim>\<open>created_at\<close>
  with NULL last. Every call starts at the oldest event: the procedure has no cursor.
\<close>

theorem get_session_history_prefix:
  assumes sorts: "sorts_by_created_at order_by"
    and limit: "0 \<le> n"
  shows "\<exists>full.
      get_session_history order_by d (Some sid) None = Inr (map history_of full)
      \<and> get_session_history order_by d (Some sid) (Some n) =
          Inr (map history_of (take (nat n) full))
      \<and> mset full = mset (filter (\<lambda>e. e_session_id e = Some sid) (events d))
      \<and> sorted_wrt (\<lambda>a b. created_le (e_created_at a) (e_created_at b)) full"
proof -
  let ?full = "order_by (session_events d (Some sid))"
  have "get_session_history order_by d (Some sid) None = Inr (map history_of ?full)"
    by (simp add: get_session_history_def)
  moreover have "get_session_history order_by d (Some sid) (Some n) =
      Inr (map history_of (take (nat n) ?full))"
    using limit by (simp add: get_session_history_def)
  moreover have "mset ?full = mset (filter (\<lambda>e. e_session_id e = Some sid) (events d))"
    using sorts by (simp add: sorts_by_created_at_def session_events_def)
  moreover have "sorted_wrt (\<lambda>a b. created_le (e_created_at a) (e_created_at b)) ?full"
    using sorts by (simp add: sorts_by_created_at_def)
  ultimately show ?thesis by blast
qed

text \<open>On the example, with the sort that keeps table order and limit one.\<close>

theorem get_session_history_prefix_witness:
  "sorts_by_created_at order_by_created_at \<and> (0::int) \<le> 1
   \<and> get_session_history order_by_created_at example_db (Some 10) None =
       Inr [history_of event_20, history_of event_21]
   \<and> get_session_history order_by_created_at example_db (Some 10) (Some 1) =
       Inr [history_of event_20]
   \<and> (\<exists>full.
        get_session_history order_by_created_at example_db (Some 10) (Some 1) =
          Inr (map history_of (take (nat 1) full))
        \<and> mset full = mset (filter (\<lambda>e. e_session_id e = Some 10) (events example_db)))"
proof -
  have limit: "(0::int) \<le> 1" by simp
  have runs: "get_session_history order_by_created_at example_db (Some 10) None =
       Inr [history_of event_20, history_of event_21]"
    "get_session_history order_by_created_at example_db (Some 10) (Some 1) =
       Inr [history_of event_20]"
    by (simp_all add: get_session_history_def session_events_def order_by_created_at_def
        example_rows)
  from get_session_history_prefix [OF order_by_created_at_sorts limit, of example_db 10]
  have "\<exists>full.
        get_session_history order_by_created_at example_db (Some 10) (Some 1) =
          Inr (map history_of (take (nat 1) full))
        \<and> mset full = mset (filter (\<lambda>e. e_session_id e = Some 10) (events example_db))"
    by blast
  with runs order_by_created_at_sorts show ?thesis by simp
qed


subsection \<open>Escalation: \<^verbatim>\<open>escalate_session\<close> and the client's pending list\<close>

text \<open>
  Claim C6 says that escalating an escalated session again is a no-op. On the example,
  session 10 is escalated since time 102; escalating it again at time 200 returns true
  and leaves another database: \<^verbatim>\<open>escalated_at\<close> is now 200 and the ledger has a third
  event.
\<close>

theorem escalate_again_not_noop:
  "s_status session_10 = Some ''escalated''
   \<and> escalate_session example_db 200 22 (Some 10) (Some ''still stuck'') = Inr (True, escalated_again)
   \<and> escalated_again \<noteq> example_db
   \<and> map s_escalated_at (sessions example_db) = [Some 102, None]
   \<and> map s_escalated_at (sessions escalated_again) = [Some 200, None]
   \<and> length (events example_db) = 2 \<and> length (events escalated_again) = 3"
  by (simp add: escalate_session_def insert_into_events_def fk_ok_def sql_update_def Let_def
      escalated_again_def example_rows)

lemma count_by_key_distinct:
  "distinct (map f xs) \<Longrightarrow> x \<in> set xs \<Longrightarrow> length (filter (\<lambda>e. f e = f x) xs) = 1"
proof (induction xs)
  case Nil
  then show ?case by simp
next
  case (Cons y ys)
  show ?case
  proof (cases "y = x")
    case True
    have "filter (\<lambda>e. f e = f x) ys = []"
      using Cons.prems(1) True by (force simp: filter_empty_conv image_iff)
    with True show ?thesis by simp
  next
    case False
    with Cons.prems have "x \<in> set ys" by simp
    moreover have "f y \<noteq> f x"
      using Cons.prems(1) \<open>x \<in> set ys\<close> by auto
    ultimately show ?thesis
      using Cons by simp
  qed
qed

lemma add_escalation_once:
  assumes "distinct (map esc_session_id prev)"
  shows "length (filter (\<lambda>e. esc_session_id e = esc_session_id n) (add_escalation n prev)) = 1"
proof (cases "list_ex (\<lambda>e. esc_session_id e = esc_session_id n) prev")
  case True
  then obtain x where x: "x \<in> set prev" "esc_session_id x = esc_session_id n"
    by (auto simp: list_ex_iff)
  from count_by_key_distinct [OF assms x(1)] x(2) True show ?thesis
    by (simp add: add_escalation_def)
next
  case False
  then have "filter (\<lambda>e. esc_session_id e = esc_session_id n) prev = []"
    by (auto simp: list_ex_iff filter_empty_conv)
  with False show ?thesis by (simp add: add_escalation_def)
qed

text \<open>
  Claim C6, amended. Escalating a session that is already escalated returns true and
  leaves its status escalated, but it is not a no-op: \<^verbatim>\<open>escalated_at\<close> and
  \<^verbatim>\<open>updated_at\<close> of the session are set to the call time and one more escalation event
  is appended. The agent's client does de-duplicate: an \<^verbatim>\<open>escalation\<close> message for a
  session already in the pending list leaves the list as it is, and a list that held
  every session at most once holds the session of the message exactly once afterwards.
\<close>

theorem escalate_again_restamps:
  assumes present: "s \<in> set (sessions d)"
    and escalated: "s_status s = Some ''escalated''"
    and fresh: "new_event_id \<notin> set (map e_id (events d))"
    and listed_once: "distinct (map esc_session_id (escalations st))"
  shows "escalate_session d now new_event_id (Some (s_id s)) reason =
           Inr (True,
                d\<lparr>sessions := map (\<lambda>r. if s_id r = s_id s
                                        then r\<lparr>s_status := Some ''escalated'',
                                               s_escalated_at := Some now,
                                               s_updated_at := Some now\<rparr>
                                        else r) (sessions d),
                  events := events d @
                    [\<lparr>e_id = new_event_id, e_session_id = Some (s_id s),
                      e_type = ''escalation'', e_sender = ''system'', e_content = reason,
                      e_metadata = Some (JObject []), e_created_at = Some now\<rparr>]\<rparr>)
     \<and> s\<lparr>s_escalated_at := Some now, s_updated_at := Some now\<rparr>
         \<in> set (map (\<lambda>r. if s_id r = s_id s
                         then r\<lparr>s_status := Some ''escalated'', s_escalated_at := Some now,
                                s_updated_at := Some now\<rparr>
                         else r) (sessions d))
     \<and> onmessage st \<lparr>msg_type = ''escalation'', msg_payload = Escalation_object n\<rparr> =
         Some (showNotification ''New escalation received!'' ''warning''
                 (st\<lparr>escalations := add_escalation n (escalations st)\<rparr>))
     \<and> (list_ex (\<lambda>e. esc_session_id e = esc_session_id n) (escalations st)
          \<longrightarrow> add_escalation n (escalations st) = escalations st)
     \<and> length (filter (\<lambda>e. esc_session_id e = esc_session_id n)
                 (add_escalation n (escalations st))) = 1"
proof -
  have here: "s_id s \<in> set (map s_id (sessions d))"
    using present by simp
  have same: "s\<lparr>s_status := Some ''escalated'', s_escalated_at := Some now,
                s_updated_at := Some now\<rparr> = s\<lparr>s_escalated_at := Some now, s_updated_at := Some now\<rparr>"
    using escalated by simp
  have row: "s\<lparr>s_escalated_at := Some now, s_updated_at := Some now\<rparr>
         \<in> set (map (\<lambda>r. if s_id r = s_id s
                         then r\<lparr>s_status := Some ''escalated'', s_escalated_at := Some now,
                                s_updated_at := Some now\<rparr>
                         else r) (sessions d))"
    using present same by (force simp: image_iff)
  have msg: "onmessage st \<lparr>msg_type = ''escalation'', msg_payload = Escalation_object n\<rparr> =
         Some (showNotification ''New escalation received!'' ''warning''
                 (st\<lparr>escalations := add_escalation n (escalations st)\<rparr>))"
    by (simp add: onmessage_def)
  show ?thesis
    using escalate_session_result [OF fresh, of now "s_id s" reason] here row msg
      add_escalation_once [OF listed_once, of n]
    by (simp add: add_escalation_def)
qed

text \<open>On the example database and client.\<close>

theorem escalate_again_restamps_witness:
  "session_10 \<in> set (sessions example_db)
   \<and> s_status session_10 = Some ''escalated''
   \<and> 22 \<notin> set (map e_id (events example_db))
   \<and> distinct (map esc_session_id (escalations example_client))
   \<and> escalate_session example_db 200 22 (Some 10) (Some ''still stuck'') = Inr (True, escalated_again)
   \<and> onmessage example_client \<lparr>msg_type = ''escalation'', msg_payload = Escalation_object pending_10\<rparr> =
       Some (example_client\<lparr>notification := Some (''New escalation received!'', ''warning'')\<rparr>)
   \<and> length (filter (\<lambda>e. esc_session_id e = ''10'') [pending_10]) = 1"
proof -
  have present: "session_10 \<in> set (sessions example_db)"
    by (simp add: example_db_def)
  have escalated: "s_status session_10 = Some ''escalated''"
    by (simp add: session_10_def)
  have fresh: "22 \<notin> set (map e_id (events example_db))"
    by (simp add: example_rows)
  have once: "distinct (map esc_session_id (escalations example_client))"
    by (simp add: example_client_def)
  show ?thesis
    using present escalated fresh once
      escalate_again_restamps [OF present escalated fresh once, of 200 "Some ''still stuck''" pending_10]
    by (simp add: example_rows escalated_again_def example_client_def pending_10_def
        add_escalation_def showNotification_def)
qed

subsection \<open>Event ledger: \<^verbatim>\<open>log_event\<close>\<close>




subsection \<open>Cost ledger: \<^verbatim>\<open>log_api_cost\<close>\<close>

text \<open>
  Claim C10. Whenever a call with integer token counts succeeds, the table has gained
  exactly one record, the one whose id is returned, and that record stores the two counts
  as given and their exact integer sum as \<^verbatim>\<open>total_tokens\<close>; the sum lies in the 32-bit
  range, so no wrapped value is ever stored.
\<close>

theorem log_api_cost_total_tokens:
  assumes "log_api_cost d now new_id p_session_id p_event_id p_service p_model
             (Some i) (Some j) p_cost_usd = Inr (cost_id, d')"
  shows "\<exists>r. conversation_costs d' = conversation_costs d @ [r] \<and> c_id r = cost_id \<and>
             c_input_tokens r = Some i \<and> c_output_tokens r = Some j \<and>
             c_total_tokens r = Some (i + j) \<and> int4 (i + j)"
  using assms
  by (auto simp: log_api_cost_def int4_add_def split: sum.splits option.splits if_splits)

theorem log_api_cost_total_tokens_witness:
  "log_api_cost example_db 200 30 (Some 10) (Some 20) (Some ''openai_completion'')
       (Some ''gpt-4'') (Some 120) (Some 30) (Some (3 / 1000)) =
     Inr (30, example_db\<lparr>conversation_costs := [example_cost]\<rparr>)
   \<and> (\<exists>r. conversation_costs (example_db\<lparr>conversation_costs := [example_cost]\<rparr>) =
             conversation_costs example_db @ [r] \<and> c_id r = 30 \<and>
             c_input_tokens r = Some 120 \<and> c_output_tokens r = Some 30 \<and>
             c_total_tokens r = Some (120 + 30) \<and> int4 (120 + 30))"
proof -
  have run: "log_api_cost example_db 200 30 (Some 10) (Some 20) (Some ''openai_completion'')
       (Some ''gpt-4'') (Some 120) (Some 30) (Some (3 / 1000)) =
     Inr (30, example_db\<lparr>conversation_costs := [example_cost]\<rparr>)"
    by (simp add: log_api_cost_def varchar_null_def varchar_def decimal_10_6_null_def
        decimal_10_6_def micros_examples int4_add_def int4_def fk_ok_def example_db_def
        example_cost_def session_10_def session_11_def event_20_def event_21_def)
  from log_api_cost_total_tokens [OF run] run show ?thesis by blast
qed




subsection \<open>The client and removal notices\<close>

text \<open>
  Claim C9 says that a client that receives \<^verbatim>\<open>escalation_removed\<close> for a session removes
  it from its pending list. The example client lists session 10; after the removal
  notice for that session its state is the same and the session is still listed.
\<close>

theorem escalation_removed_keeps_session:
  "onmessage example_client
      \<lparr>msg_type = ''escalation_removed'', msg_payload = Escalation_object pending_10\<rparr> =
     Some example_client
   \<and> escalations example_client = [pending_10]"
  by (simp add: onmessage_def example_client_def)

text \<open>
  Claim C9, amended. The message handler has the cases \<^verbatim>\<open>connected\<close>,
  \<^verbatim>\<open>initial_escalations\<close>, \<^verbatim>\<open>escalation\<close>, \<^verbatim>\<open>takeover_success\<close>, \<^verbatim>\<open>pong\<close> and
  \<^verbatim>\<open>error\<close>; a message of any other type, \<^verbatim>\<open>escalation_removed\<close> among them, leaves the
  whole state of the client, and so its pending list, unchanged. A session leaves the
  list of a logged-in agent when that agent's own takeover request succeeds; a failed
  request leaves the list as it is. (What the server broadcasts is not part of the
  sources.)
\<close>

theorem escalation_removed_unhandled:
  "onmessage st \<lparr>msg_type = ''escalation_removed'', msg_payload = p\<rparr> = Some st
   \<and> (msg_type m \<notin> set [''connected'', ''initial_escalations'', ''escalation'',
                          ''takeover_success'', ''pong'', ''error'']
        \<longrightarrow> onmessage st m = Some st)
   \<and> (agent_token st = Some (c # cs) \<and> agent_info st = Some info \<longrightarrow>
        escalations (handleTakeover st sessionId True history_response) =
          filter (\<lambda>e. esc_session_id e \<noteq> sessionId) (escalations st)
        \<and> sessionId \<notin> set (map esc_session_id
              (escalations (handleTakeover st sessionId True history_response)))
        \<and> escalations (handleTakeover st sessionId False history_response) = escalations st)"
  by (auto simp: onmessage_def handleTakeover_def showNotification_def
      loadConversationHistory_def split: option.splits)

text \<open>On the example client.\<close>

theorem escalation_removed_unhandled_witness:
  "agent_token example_client = Some ''jwt'' \<and> agent_info example_client = Some (''a2'', ''Bo'')
   \<and> ''escalation_removed'' \<notin> set [''connected'', ''initial_escalations'', ''escalation'',
                          ''takeover_success'', ''pong'', ''error'']
   \<and> onmessage example_client \<lparr>msg_type = ''escalation_removed'', msg_payload = Text_object None\<rparr>
       = Some example_client
   \<and> escalations (handleTakeover example_client ''10'' True (Some [])) = []
   \<and> escalations (handleTakeover example_client ''10'' False (Some [])) = [pending_10]"
  using escalation_removed_unhandled [of example_client "Text_object None"
      "\<lparr>msg_type = ''escalation_removed'', msg_payload = Text_object None\<rparr>"
      "CHR ''j''" "''wt''" "(''a2'', ''Bo'')" "''10''" "Some []"]
  by (simp add: example_client_def pending_10_def)

end
